theory Spec2Isabelle
  imports Complex_Main "HOL-Library.Sublist"
begin

section \<open>JavaScript values and errors\<close>

text \<open>
  A thrown JavaScript \<^verbatim>\<open>Error\<close> object: its \<^verbatim>\<open>name\<close> and its \<^verbatim>\<open>message\<close>.
  An \<^verbatim>\<open>async\<close> function that rejects is a result \<open>Inl e\<close>; one that resolves to
  \<open>v\<close> is \<open>Inr v\<close>.
\<close>

datatype js_error = JsError (err_name: string) (err_message: string)

text \<open>
  A value produced by \<^verbatim>\<open>response.json()\<close>. An object is the list of its members in
  document order; \<^verbatim>\<open>JSON.parse\<close> keeps the last of several members with one key.
\<close>

datatype json =
    JNull
  | JBool bool
  | JNum rat
  | JStr string
  | JArr "json list"
  | JObj "(string \<times> json) list"

text \<open>\<^verbatim>\<open>Array.isArray(data)\<close>.\<close>

fun isArray :: "json \<Rightarrow> bool" where
  "isArray (JArr xs) = True"
| "isArray _ = False"

text \<open>
  \<^verbatim>\<open>data.key\<close> for a key that is no built-in member of a prototype (the code reads
  \<^verbatim>\<open>players\<close> and \<^verbatim>\<open>servername\<close>): reading a property of \<^verbatim>\<open>null\<close> throws a
  TypeError, an object yields its member or \<^verbatim>\<open>undefined\<close> (\<open>None\<close>), every other value
  yields \<^verbatim>\<open>undefined\<close>.
\<close>

fun js_prop :: "string \<Rightarrow> json \<Rightarrow> js_error + json option" where
  "js_prop key JNull =
     Inl (JsError ''TypeError''
            (''Cannot read properties of null (reading '' @ [CHR 0x27] @ key @ [CHR 0x27] @ '')''))"
| "js_prop key (JObj members) = Inr (map_of (rev members) key)"
| "js_prop key _ = Inr None"

text \<open>Truthiness, as \<^verbatim>\<open>||\<close> and \<^verbatim>\<open>if\<close> test it; \<open>None\<close> is \<^verbatim>\<open>undefined\<close>.\<close>

fun truthy :: "json option \<Rightarrow> bool" where
  "truthy None = False"
| "truthy (Some JNull) = False"
| "truthy (Some (JBool b)) = b"
| "truthy (Some (JNum q)) = (q \<noteq> 0)"
| "truthy (Some (JStr s)) = (s \<noteq> [])"
| "truthy (Some (JArr xs)) = True"
| "truthy (Some (JObj members)) = True"

text \<open>Decimal digits of a natural number, as a template literal prints an array length.\<close>

fun show_nat :: "nat \<Rightarrow> string" where
  "show_nat n =
     (if n < 10 then [''0123456789'' ! n]
      else show_nat (n div 10) @ [''0123456789'' ! (n mod 10)])"

declare show_nat.simps [simp del]

section \<open>Sanitizing error messages (utils/security.js)\<close>

text \<open>
  \<^verbatim>\<open>sanitizeErrorMessage\<close> rewrites a message with regular expressions. The
  expressions it uses are built from these forms: the empty expression, one character
  of a class, a greedy run \<^verbatim>\<open>[...]*\<close> of a class, concatenation, a greedy option
  \<^verbatim>\<open>(...)?\<close> and the word boundary \<^verbatim>\<open>\b\<close>. Strings are sequences of code
  units below 256. Among these \<^verbatim>\<open>\s\<close> and \<^verbatim>\<open>trim\<close> match the six ASCII whitespace
  characters and the no-break space U+00A0; \<^verbatim>\<open>\d\<close>, \<^verbatim>\<open>\w\<close> and the \<^verbatim>\<open>i\<close> flag on
  the ASCII letters of the patterns match ASCII characters only.
\<close>

datatype rx =
    Eps
  | Cls "char \<Rightarrow> bool"
  | Many "char \<Rightarrow> bool"
  | Cat rx rx
  | Opt rx
  | WordB

text \<open>The classes \<^verbatim>\<open>\s\<close>, \<^verbatim>\<open>\d\<close>, \<^verbatim>\<open>[A-Za-z]\<close> and \<^verbatim>\<open>\w\<close>.\<close>

definition is_space :: "char \<Rightarrow> bool" where
  "is_space c = (c \<in> set [CHR 0x09, CHR 0x0A, CHR 0x0B, CHR 0x0C, CHR 0x0D, CHR 0x20, CHR 0xA0])"

definition is_digit :: "char \<Rightarrow> bool" where
  "is_digit c = (c \<in> set ''0123456789'')"

definition is_alpha :: "char \<Rightarrow> bool" where
  "is_alpha c = (c \<in> set ''abcdefghijklmnopqrstuvwxyzABCDEFGHIJKLMNOPQRSTUVWXYZ'')"

definition is_word :: "char \<Rightarrow> bool" where
  "is_word c = (is_alpha c \<or> is_digit c \<or> c = CHR ''_'')"

text \<open>\<^verbatim>\<open>String.prototype.toLowerCase\<close> on ASCII: the \<^verbatim>\<open>i\<close> flag, and reserved names.\<close>

definition lower_char :: "char \<Rightarrow> char" where
  "lower_char c =
     (case map_of (zip ''ABCDEFGHIJKLMNOPQRSTUVWXYZ'' ''abcdefghijklmnopqrstuvwxyz'') c of
        None \<Rightarrow> c
      | Some l \<Rightarrow> l)"

text \<open>
  Backtracking matching at the start of a string: every way the expression matches, as
  the last character consumed (for \<^verbatim>\<open>\b\<close>) and the rest of the string, in the order
  the engine of JavaScript tries them (greedy first). The first element is the match
  JavaScript takes.
\<close>

fun word_at :: "char option \<Rightarrow> bool" where
  "word_at None = False"
| "word_at (Some c) = is_word c"

fun next_char :: "string \<Rightarrow> char option" where
  "next_char [] = None"
| "next_char (c # cs) = Some c"

fun many :: "(char \<Rightarrow> bool) \<Rightarrow> char option \<Rightarrow> string \<Rightarrow> (char option \<times> string) list" where
  "many p prev [] = [(prev, [])]"
| "many p prev (c # cs) = (if p c then many p (Some c) cs @ [(prev, c # cs)] else [(prev, c # cs)])"

fun rx_match :: "rx \<Rightarrow> char option \<Rightarrow> string \<Rightarrow> (char option \<times> string) list" where
  "rx_match Eps prev s = [(prev, s)]"
| "rx_match (Cls p) prev [] = []"
| "rx_match (Cls p) prev (c # cs) = (if p c then [(Some c, cs)] else [])"
| "rx_match (Many p) prev s = many p prev s"
| "rx_match (Cat a b) prev s = concat (map (\<lambda>(pv, rest). rx_match b pv rest) (rx_match a prev s))"
| "rx_match (Opt a) prev s = rx_match a prev s @ [(prev, s)]"
| "rx_match WordB prev s = (if word_at prev \<noteq> word_at (next_char s) then [(prev, s)] else [])"

text \<open>
  \<^verbatim>\<open>message.replace(/r/g, rep)\<close> for a replacement text without group references:
  matches are taken left to right; after an empty match the scan moves on by one
  character.
\<close>

function replace_all :: "rx \<Rightarrow> string \<Rightarrow> char option \<Rightarrow> string \<Rightarrow> string" where
  "replace_all r rep prev [] = (case rx_match r prev [] of [] \<Rightarrow> [] | m # ms \<Rightarrow> rep)"
| "replace_all r rep prev (c # cs) =
     (case rx_match r prev (c # cs) of
        [] \<Rightarrow> c # replace_all r rep (Some c) cs
      | (pv, rest) # ms \<Rightarrow>
          if length rest < length (c # cs) then rep @ replace_all r rep pv rest
          else rep @ c # replace_all r rep (Some c) cs)"
  by pat_completeness auto
termination
  by (relation "measure (\<lambda>(r, rep, prev, s). length s)") auto

declare replace_all.simps [simp del]

text \<open>\<^verbatim>\<open>/r/.test(message)\<close>: the expression matches somewhere.\<close>

fun rx_test :: "rx \<Rightarrow> char option \<Rightarrow> string \<Rightarrow> bool" where
  "rx_test r prev [] = (rx_match r prev [] \<noteq> [])"
| "rx_test r prev (c # cs) = (rx_match r prev (c # cs) \<noteq> [] \<or> rx_test r (Some c) cs)"

text \<open>
  A literal, a literal under the \<^verbatim>\<open>i\<close> flag (given in lower case), \<^verbatim>\<open>[...]+\<close>, and a
  sequence.
\<close>

definition lit :: "string \<Rightarrow> rx" where
  "lit s = foldr (\<lambda>c r. Cat (Cls (\<lambda>x. x = c)) r) s Eps"

definition lit_i :: "string \<Rightarrow> rx" where
  "lit_i s = foldr (\<lambda>c r. Cat (Cls (\<lambda>x. lower_char x = c)) r) s Eps"

definition plus :: "(char \<Rightarrow> bool) \<Rightarrow> rx" where
  "plus p = Cat (Cls p) (Many p)"

fun cat :: "rx list \<Rightarrow> rx" where
  "cat [] = Eps"
| "cat (r # rs) = Cat r (cat rs)"

text \<open>\<^verbatim>\<open>String.prototype.trim\<close>.\<close>

definition trim :: "string \<Rightarrow> string" where
  "trim s = rev (dropWhile is_space (rev (dropWhile is_space s)))"

text \<open>
  The classes \<^verbatim>\<open>[^\s<>"|?*\n\r]\<close>, \<^verbatim>\<open>[^\s\n\r]\<close>, \<^verbatim>\<open>[A-Za-z_]\<close> and \<^verbatim>\<open>.\<close>; the
  expressions \<^verbatim>\<open>word[=:]\s*[^\s\n\r]+\<close>, \<^verbatim>\<open>\d{1,3}\<close>,
  \<^verbatim>\<open>\b(?:\d{1,3}\.){3}\d{1,3}(?::\d+)?\b\<close> and \<^verbatim>\<open>a.*b\<close>.
\<close>

definition path_char :: "char \<Rightarrow> bool" where
  "path_char c = (\<not> is_space c \<and> c \<notin> set (''<>|?*'' @ [CHR 0x22]))"

definition not_space :: "char \<Rightarrow> bool" where
  "not_space c = (\<not> is_space c)"

definition ident_start :: "char \<Rightarrow> bool" where
  "ident_start c = (is_alpha c \<or> c = CHR ''_'')"

definition any_char :: "char \<Rightarrow> bool" where
  "any_char c = (c \<noteq> CHR 0x0A \<and> c \<noteq> CHR 0x0D)"

definition credential :: "string \<Rightarrow> rx" where
  "credential word =
     cat [lit_i word, Cls (\<lambda>c. c = CHR ''='' \<or> c = CHR '':''), Many is_space, plus not_space]"

definition digits13 :: rx where
  "digits13 = Cat (Cls is_digit) (Opt (Cat (Cls is_digit) (Opt (Cls is_digit))))"

definition ip_address :: rx where
  "ip_address =
     cat [WordB,
          digits13, lit ''.'', digits13, lit ''.'', digits13, lit ''.'', digits13,
          Opt (Cat (lit '':'') (plus is_digit)),
          WordB]"

definition between :: "string \<Rightarrow> string \<Rightarrow> rx" where
  "between a b = cat [lit_i a, Many any_char, lit_i b]"

text \<open>
  \<^verbatim>\<open>sanitizeErrorMessage(error)\<close> with \<^verbatim>\<open>includeType\<close> false, on an Error object:
  the rewrites in the order of the source, the whitespace clean-up, then the first
  standard message whose pattern matches. The replacement \<^verbatim>\<open>$1=[REDACTED]\<close> names a
  group the expression does not have, so JavaScript inserts it as it is written.
\<close>

definition sanitizeErrorMessage :: "js_error \<Rightarrow> string" where
  "sanitizeErrorMessage error =
     (let message = err_message error;
          message = replace_all (cat [Cls is_alpha, lit ('':'' @ [CHR 0x5C]), plus path_char])
                      ''[PATH_REMOVED]'' None message;
          message = replace_all (cat [lit ''/'', plus path_char]) ''[PATH_REMOVED]'' None message;
          message = replace_all (credential ''password'') ''password=[REDACTED]'' None message;
          message = replace_all (credential ''token'') ''token=[REDACTED]'' None message;
          message = replace_all (credential ''key'') ''key=[REDACTED]'' None message;
          message = replace_all (credential ''auth'') ''auth=[REDACTED]'' None message;
          message = replace_all
                      (cat [lit ''$'', Cls ident_start, Many is_word, Many is_space, lit ''='',
                            Many is_space, plus not_space])
                      ''$1=[REDACTED]'' None message;
          message = replace_all (cat [lit ''%'', Cls ident_start, Many is_word, lit ''%''])
                      ''[ENV_VAR]'' None message;
          message = replace_all ip_address ''[IP_ADDRESS]'' None message;
          message = replace_all
                      (cat [lit ''http'', Opt (lit ''s''), lit ''://'',
                            plus (\<lambda>c. c \<noteq> CHR ''@'' \<and> \<not> is_space c), lit '':'',
                            plus (\<lambda>c. c \<noteq> CHR ''@'' \<and> \<not> is_space c), lit ''@'', plus not_space])
                      ''[URL_WITH_CREDENTIALS]'' None message;
          message = replace_all
                      (cat [lit_i ''service'', plus is_space,
                            Cls (\<lambda>c. c = CHR 0x27 \<or> c = CHR 0x22),
                            plus (\<lambda>c. c \<noteq> CHR 0x27 \<and> c \<noteq> CHR 0x22),
                            Cls (\<lambda>c. c = CHR 0x27 \<or> c = CHR 0x22)])
                      ''service [SERVICE_NAME]'' None message;
          message = trim (replace_all (plus is_space) '' '' None message)
      in if rx_test (between ''cannot find '' '' file'') None message then ''Required file not found''
         else if rx_test (between ''access'' '' denied'') None message then ''Access denied''
         else if rx_test (between ''permission'' '' denied'') None message then ''Permission denied''
         else if rx_test (between ''network'' '' unreachable'') None message
           then ''Network connection failed''
         else if rx_test (between ''connection'' '' refused'') None message then ''Connection refused''
         else if rx_test (between ''timeout'' '' occurred'') None message then ''Operation timeout''
         else message)"

section \<open>The REST client (palworld.js)\<close>

text \<open>
  What \<^verbatim>\<open>fetch\<close> did with one request: it rejected (network failure), or it gave a
  response with a status, a status text, and a body that \<^verbatim>\<open>response.json()\<close> either
  parses or rejects.
\<close>

datatype http_reply =
    FetchFailed js_error
  | Response (status: nat) (statusText: string) (body: "js_error + json")

text \<open>\<^verbatim>\<open>response.ok\<close>: the status is in the range 200-299.\<close>

definition response_ok :: "nat \<Rightarrow> bool" where
  "response_ok st = (200 \<le> st \<and> st \<le> 299)"

text \<open>
  \<^verbatim>\<open>apiGet\<close>: throws on a failed fetch, on a response that is not ok, and when the body
  does not parse.
\<close>

fun apiGet :: "http_reply \<Rightarrow> js_error + json" where
  "apiGet (FetchFailed e) = Inl e"
| "apiGet (Response st txt b) =
     (if \<not> response_ok st
      then Inl (JsError ''Error'' (''HTTP '' @ show_nat st @ '': '' @ txt))
      else b)"

text \<open>\<^verbatim>\<open>apiPost\<close>: as \<^verbatim>\<open>apiGet\<close>, but a body that does not parse yields \<^verbatim>\<open>{}\<close>.\<close>

fun apiPost :: "http_reply \<Rightarrow> js_error + json" where
  "apiPost (FetchFailed e) = Inl e"
| "apiPost (Response st txt b) =
     (if \<not> response_ok st
      then Inl (JsError ''Error'' (''HTTP '' @ show_nat st @ '': '' @ txt))
      else (case b of Inl e \<Rightarrow> Inr (JObj []) | Inr v \<Rightarrow> Inr v))"

text \<open>\<^verbatim>\<open>a || b\<close>: the left operand when it is truthy, the right one otherwise.\<close>

fun js_or :: "json option \<Rightarrow> json \<Rightarrow> json" where
  "js_or None d = d"
| "js_or (Some v) d = (if truthy (Some v) then v else d)"

text \<open>
  \<^verbatim>\<open>getPlayers\<close>, on the reply to \<^verbatim>\<open>GET /players\<close>:
  \<^verbatim>\<open>Array.isArray(data) ? data : (data.players || [])\<close>.
\<close>

definition getPlayers :: "http_reply \<Rightarrow> js_error + json" where
  "getPlayers reply =
     (case apiGet reply of
        Inl e \<Rightarrow> Inl e
      | Inr data \<Rightarrow>
          if isArray data then Inr data
          else (case js_prop ''players'' data of
                  Inl e \<Rightarrow> Inl e
                | Inr p \<Rightarrow> Inr (js_or p (JArr []))))"

text \<open>
  \<^verbatim>\<open>isUp\<close>, on the reply to \<^verbatim>\<open>GET /info\<close>:
  \<^verbatim>\<open>try { await apiGet('/info'); return true; } catch { return false; }\<close>.
  The result type allows a throw, so that its absence is a theorem.
\<close>

definition isUp :: "http_reply \<Rightarrow> js_error + bool" where
  "isUp reply = (case apiGet reply of Inr info \<Rightarrow> Inr True | Inl e \<Rightarrow> Inr False)"

section \<open>The world the lifecycle code runs in\<close>

text \<open>
  The configuration (\<^verbatim>\<open>config.timing\<close>, \<^verbatim>\<open>config.monitoring\<close>, \<^verbatim>\<open>config.server\<close>) and
  the collaborators. Every call to a collaborator is numbered by the count of calls made
  before it; the collaborators answer the \<open>k\<close>-th call with \<open>http k\<close>, \<open>playerPoll k\<close>,
  and so on, and it takes \<open>latency k\<close> milliseconds. Any behaviour of the remote server,
  the launcher and Discord during one run is such a family of answers.

  The lifecycle code uses the value \<^verbatim>\<open>getPlayers()\<close> resolves to as an array
  (\<^verbatim>\<open>players.length\<close>): \<open>playerPoll k\<close> is that array, or the error the call rejects
  with; replies on which \<^verbatim>\<open>getPlayers()\<close> resolves to something that is not an array are
  outside this part of the model. \<^verbatim>\<open>validateStartCommand\<close> consults the file system; it
  is a parameter here.
\<close>

record env =
  startTimeoutMs :: nat
  pollIntervalMs :: nat
  saveWorldDelayMs :: nat
  shutdownDelaySeconds :: nat
  emptyCheckThreshold :: nat
  serviceName :: "string option"
  startCommand :: "string option"
  startWorkingDirectory :: "string option"
  http :: "nat \<Rightarrow> http_reply"
  playerPoll :: "nat \<Rightarrow> js_error + json list"
  latency :: "nat \<Rightarrow> nat"
  powershell :: "nat \<Rightarrow> js_error + string"
  spawn :: "nat \<Rightarrow> js_error option"
  setActivity :: "nat \<Rightarrow> js_error option"
  validateStartCommand :: "string \<Rightarrow> js_error + string \<times> string list"

datatype server_state = UNKNOWN | KNOWN_UP | KNOWN_DOWN

text \<open>A call made to a collaborator.\<close>

datatype call =
    Get string
  | Post string json
  | RunPowerShell string "string list"
  | SpawnDetached string "string list" "string option"
  | SetActivity json string

text \<open>
  The module-level variables of the bot (\<^verbatim>\<open>busy\<close>) and of the monitor
  (\<^verbatim>\<open>serverState\<close>, \<^verbatim>\<open>consecutiveEmptyChecks\<close>, \<^verbatim>\<open>lastKnownServerName\<close>), whether
  \<^verbatim>\<open>discordClient\<close> and its \<^verbatim>\<open>user\<close> are set, the clock \<^verbatim>\<open>Date.now()\<close>, and the calls
  made so far, oldest first. \<open>statusUpdates\<close> is a ghost counter: it counts the
  executions of \<^verbatim>\<open>updateDiscordStatus\<close>.
\<close>

record world =
  busy :: bool
  serverState :: server_state
  consecutiveEmptyChecks :: nat
  lastKnownServerName :: json
  clientReady :: bool
  now :: nat
  trace :: "call list"
  statusUpdates :: nat

text \<open>An \<^verbatim>\<open>async\<close> function: it rejects or resolves, and leaves a new world.\<close>

type_synonym 'a act = "world \<Rightarrow> (js_error + 'a) \<times> world"

definition ret :: "'a \<Rightarrow> 'a act" where
  "ret v s = (Inr v, s)"

definition throw :: "js_error \<Rightarrow> 'a act" where
  "throw e s = (Inl e, s)"

text \<open>\<^verbatim>\<open>const x = await m; f(x)\<close>: a rejection of \<open>m\<close> skips \<open>f\<close>.\<close>

definition await :: "'a act \<Rightarrow> ('a \<Rightarrow> 'b act) \<Rightarrow> 'b act" where
  "await m f s = (case m s of (Inl e, s1) \<Rightarrow> (Inl e, s1) | (Inr v, s1) \<Rightarrow> f v s1)"

text \<open>\<^verbatim>\<open>try { m } catch (e) { h(e) }\<close>.\<close>

definition try_catch :: "'a act \<Rightarrow> (js_error \<Rightarrow> 'a act) \<Rightarrow> 'a act" where
  "try_catch m h s = (case m s of (Inl e, s1) \<Rightarrow> h e s1 | (Inr v, s1) \<Rightarrow> (Inr v, s1))"

text \<open>\<^verbatim>\<open>try { m } finally { g }\<close>: \<open>g\<close> runs on both exits and keeps the outcome.\<close>

definition try_finally :: "'a act \<Rightarrow> (world \<Rightarrow> world) \<Rightarrow> 'a act" where
  "try_finally m g s = (case m s of (r, s1) \<Rightarrow> (r, g s1))"

text \<open>Making call \<open>c\<close>: it is recorded and the clock advances by its latency.\<close>

definition issue :: "env \<Rightarrow> call \<Rightarrow> world \<Rightarrow> world" where
  "issue env c s =
     s\<lparr>now := now s + latency env (length (trace s)), trace := trace s @ [c]\<rparr>"

text \<open>
  \<^verbatim>\<open>new Promise(r => setTimeout(r, ms))\<close>: Node runs a timer of less than one
  millisecond as one of one millisecond.
\<close>

definition sleep :: "nat \<Rightarrow> unit act" where
  "sleep ms s = (Inr (), s\<lparr>now := now s + max 1 ms\<rparr>)"

text \<open>The REST client's functions as calls in the world.\<close>

definition isUp_io :: "env \<Rightarrow> bool act" where
  "isUp_io env s = (isUp (http env (length (trace s))), issue env (Get ''/info'') s)"

definition getInfo_io :: "env \<Rightarrow> json act" where
  "getInfo_io env s = (apiGet (http env (length (trace s))), issue env (Get ''/info'') s)"

definition getPlayers_io :: "env \<Rightarrow> json list act" where
  "getPlayers_io env s = (playerPoll env (length (trace s)), issue env (Get ''/players'') s)"

definition saveWorld_io :: "env \<Rightarrow> json act" where
  "saveWorld_io env s =
     (apiPost (http env (length (trace s))), issue env (Post ''/save'' (JObj [])) s)"

definition shutdown_io :: "env \<Rightarrow> nat \<Rightarrow> string \<Rightarrow> json act" where
  "shutdown_io env seconds msg s =
     (apiPost (http env (length (trace s))),
      issue env
        (Post ''/shutdown'' (JObj [(''waittime'', JNum (of_nat seconds)), (''message'', JStr msg)]))
        s)"

section \<open>The operation lock (bot entry module)\<close>

definition busy_error :: js_error where
  "busy_error = JsError ''Error'' ''Another operation is in progress.''"

text \<open>
  \<^verbatim>\<open>withLock\<close> has two synchronous segments around \<^verbatim>\<open>await fn()\<close>. Entry:
  \<^verbatim>\<open>if (busy) throw ...; busy = true;\<close>. Exit, the \<^verbatim>\<open>finally\<close>: \<^verbatim>\<open>busy = false\<close>.
\<close>

definition acquire :: "bool \<Rightarrow> js_error + bool" where
  "acquire b = (if b then Inl busy_error else Inr True)"

definition release :: "bool \<Rightarrow> bool" where
  "release b = False"

text \<open>One invocation run to its end with nothing interleaved.\<close>

definition withLock :: "'a act \<Rightarrow> 'a act" where
  "withLock fn s =
     (case acquire (busy s) of
        Inl e \<Rightarrow> (Inl e, s)
      | Inr b \<Rightarrow> try_finally fn (\<lambda>t. t\<lparr>busy := release (busy t)\<rparr>) (s\<lparr>busy := b\<rparr>))"

text \<open>
  Overlapping invocations. Node runs each synchronous segment to its end before any
  other code, so a run of several invocations is a sequence of segments: \<open>Invoke i\<close> is
  the entry of invocation \<open>i\<close>, \<open>Settle i r\<close> is its exit after its action settled with
  \<open>r\<close> (\<open>Inl\<close>: the action threw). No other code assigns \<^verbatim>\<open>busy\<close>.
\<close>

datatype phase = Pending | Holding | Rejected js_error | Settled "js_error + unit"

datatype event = Invoke nat | Settle nat "js_error + unit"

record lock_state =
  flag :: bool
  phase_of :: "nat \<Rightarrow> phase"

fun lock_step :: "lock_state \<Rightarrow> event \<Rightarrow> lock_state" where
  "lock_step l (Invoke i) =
     (if phase_of l i \<noteq> Pending then l
      else (case acquire (flag l) of
              Inl e \<Rightarrow> l\<lparr>phase_of := (phase_of l)(i := Rejected e)\<rparr>
            | Inr b \<Rightarrow> l\<lparr>flag := b, phase_of := (phase_of l)(i := Holding)\<rparr>))"
| "lock_step l (Settle i r) =
     (if phase_of l i \<noteq> Holding then l
      else l\<lparr>flag := release (flag l), phase_of := (phase_of l)(i := Settled r)\<rparr>)"

definition lock_init :: lock_state where
  "lock_init = \<lparr>flag = False, phase_of = (\<lambda>i. Pending)\<rparr>"

definition lock_run :: "event list \<Rightarrow> lock_state" where
  "lock_run es = foldl lock_step lock_init es"

section \<open>The monitor's state tracker (monitor module)\<close>

text \<open>\<^verbatim>\<open>discordClient.user.setActivity(activityName, ...)\<close>, where \<^verbatim>\<open>activityName\<close> is
  the server name followed by \<^verbatim>\<open>is UP\<close> or \<^verbatim>\<open>is DOWN\<close>.\<close>

definition setActivity_io :: "env \<Rightarrow> json \<Rightarrow> string \<Rightarrow> unit act" where
  "setActivity_io env serverName st s =
     ((case setActivity env (length (trace s)) of None \<Rightarrow> Inr () | Some e \<Rightarrow> Inl e),
      issue env (SetActivity serverName st) s)"

text \<open>
  The inner \<^verbatim>\<open>try\<close> of \<^verbatim>\<open>updateDiscordStatus\<close>: the name to display, which is
  \<^verbatim>\<open>info.servername\<close> when the server is known up, the query succeeds and the field is
  truthy (it is then stored as the last known name), and the last known name otherwise.
\<close>

definition currentServerName :: "env \<Rightarrow> json act" where
  "currentServerName env s =
     (if serverState s = KNOWN_UP then
        try_catch
          (await (getInfo_io env) (\<lambda>info.
           await (\<lambda>t. (js_prop ''servername'' info, t)) (\<lambda>name.
           case name of
             None \<Rightarrow> ret (lastKnownServerName s)
           | Some v \<Rightarrow>
               if truthy (Some v) then (\<lambda>t. (Inr v, t\<lparr>lastKnownServerName := v\<rparr>))
               else ret (lastKnownServerName s))))
          (\<lambda>e. ret (lastKnownServerName s))
          s
      else (Inr (lastKnownServerName s), s))"

definition updateDiscordStatus :: "env \<Rightarrow> unit act" where
  "updateDiscordStatus env s0 =
     (let s = s0\<lparr>statusUpdates := Suc (statusUpdates s0)\<rparr> in
      if \<not> clientReady s then (Inr (), s)
      else
        try_catch
          (await (currentServerName env) (\<lambda>serverName t.
             setActivity_io env serverName
               (if serverState t = KNOWN_UP then ''UP'' else ''DOWN'') t))
          (\<lambda>error. ret ())
          s)"

definition handleServerUp :: "env \<Rightarrow> unit act" where
  "handleServerUp env s =
     (if serverState s \<noteq> KNOWN_UP
      then updateDiscordStatus env (s\<lparr>serverState := KNOWN_UP, consecutiveEmptyChecks := 0\<rparr>)
      else (Inr (), s))"

definition handleServerDown :: "env \<Rightarrow> unit act" where
  "handleServerDown env s =
     (if serverState s \<noteq> KNOWN_DOWN
      then updateDiscordStatus env (s\<lparr>serverState := KNOWN_DOWN, consecutiveEmptyChecks := 0\<rparr>)
      else (Inr (), s))"

definition setServerUp :: "env \<Rightarrow> unit act" where
  "setServerUp env s =
     (if serverState s \<noteq> KNOWN_UP then handleServerUp env s else (Inr (), s))"

definition setServerDown :: "env \<Rightarrow> unit act" where
  "setServerDown env s =
     (if serverState s \<noteq> KNOWN_DOWN then handleServerDown env s else (Inr (), s))"

section \<open>Graceful shutdown (bot entry module)\<close>

text \<open>
  \<^verbatim>\<open>waitForShutdown\<close>: \<open>until\<close> is \<^verbatim>\<open>Date.now() + timeoutMs\<close>; each round polls
  \<^verbatim>\<open>isUp()\<close>, returns true when it is false, swallows a throw, and sleeps.
\<close>

function waitForShutdown_loop :: "env \<Rightarrow> nat \<Rightarrow> nat \<Rightarrow> world \<Rightarrow> bool \<times> world" where
  "waitForShutdown_loop env until intervalMs s =
     (if now s < until then
        (let (r, s1) = isUp_io env s in
         if r = Inr False then (True, s1)
         else waitForShutdown_loop env until intervalMs (snd (sleep intervalMs s1)))
      else (False, s))"
  by pat_completeness auto
termination
  by (relation "measure (\<lambda>(env, until, intervalMs, s). until - now s)")
     (auto simp: isUp_io_def issue_def sleep_def)

declare waitForShutdown_loop.simps [simp del]

definition waitForShutdown :: "env \<Rightarrow> nat \<Rightarrow> nat \<Rightarrow> bool act" where
  "waitForShutdown env timeoutMs intervalMs s =
     (case waitForShutdown_loop env (now s + timeoutMs) intervalMs s of
        (b, s1) \<Rightarrow> (Inr b, s1))"

record outcome =
  success :: bool
  message :: string

definition gracefulShutdown :: "env \<Rightarrow> outcome act" where
  "gracefulShutdown env =
     await (isUp_io env) (\<lambda>up.
     if \<not> up then ret \<lparr>success = False, message = ''Server already appears **DOWN**.''\<rparr>
     else
     await (getPlayers_io env) (\<lambda>players.
     if length players > 0
     then ret \<lparr>success = False,
               message = ''Cannot stop: **'' @ show_nat (length players) @ ''** player(s) online.''\<rparr>
     else
     try_catch
       (await (saveWorld_io env) (\<lambda>saved.
        await (sleep (saveWorldDelayMs env)) (\<lambda>slept.
        await (getPlayers_io env) (\<lambda>players.
        if length players > 0
        then ret \<lparr>success = False,
                  message = ''Abort: **'' @ show_nat (length players)
                            @ ''** player(s) just connected.''\<rparr>
        else
        await (shutdown_io env (shutdownDelaySeconds env) ''Stopping (admin request).'') (\<lambda>requested.
        await (waitForShutdown env (startTimeoutMs env) (pollIntervalMs env)) (\<lambda>serverDown.
        if \<not> serverDown
        then ret \<lparr>success = False,
                  message = ''Server shutdown timed out - may still be running.''\<rparr>
        else
        await (setServerDown env) (\<lambda>notified.
        ret \<lparr>success = True, message = ''Graceful server stop completed.''\<rparr>)))))))
       (\<lambda>e. ret \<lparr>success = False,
                  message = ''Stop failed: `'' @ sanitizeErrorMessage e @ ''`''\<rparr>)))"

section \<open>Startup (process.js)\<close>

text \<open>The character class \<^verbatim>\<open>[a-zA-Z0-9_-]\<close>.\<close>

definition service_char :: "char \<Rightarrow> bool" where
  "service_char c = (is_word c \<or> c = CHR ''-'')"

definition reservedNames :: "string list" where
  "reservedNames =
     [''con'', ''prn'', ''aux'', ''nul'',
      ''com1'', ''com2'', ''com3'', ''com4'', ''com5'', ''com6'', ''com7'', ''com8'', ''com9'',
      ''lpt1'', ''lpt2'', ''lpt3'', ''lpt4'', ''lpt5'', ''lpt6'', ''lpt7'', ''lpt8'', ''lpt9'']"

definition validateServiceName :: "string \<Rightarrow> js_error + bool" where
  "validateServiceName name =
     (if length name = 0 \<or> length name > 256
      then Inl (JsError ''Error'' ''Service name must be between 1 and 256 characters'')
      else if \<not> list_all service_char name
      then Inl (JsError ''Error'' ''Service name contains invalid characters'')
      else if map lower_char name \<in> set reservedNames
      then Inl (JsError ''Error'' ''Service name uses reserved system name'')
      else Inr True)"

text \<open>
  \<^verbatim>\<open>runSecurePowerShell\<close> and \<^verbatim>\<open>runSecureDetached\<close>, the process launcher: the call
  is recorded and the launcher's answer is the outcome. The working directory is a
  string or unset, so the type check of \<^verbatim>\<open>runSecureDetached\<close> never rejects; it is
  passed to \<^verbatim>\<open>spawn\<close> as \<^verbatim>\<open>cwd || undefined\<close>.
\<close>

definition runSecurePowerShell :: "env \<Rightarrow> string \<Rightarrow> string list \<Rightarrow> string act" where
  "runSecurePowerShell env command args s =
     (if command \<notin> set [''Start-Service'', ''Stop-Service'', ''Get-Service'']
      then (Inl (JsError ''Error'' ''PowerShell command not allowed''), s)
      else (powershell env (length (trace s)), issue env (RunPowerShell command args) s))"

text \<open>
  A configured string as a condition and under \<^verbatim>\<open>|| undefined\<close>: unset and empty
  are both falsy.
\<close>

fun nonempty :: "string option \<Rightarrow> string option" where
  "nonempty None = None"
| "nonempty (Some v) = (if v = [] then None else Some v)"

definition runSecureDetached :: "env \<Rightarrow> string \<Rightarrow> string list \<Rightarrow> string option \<Rightarrow> unit act" where
  "runSecureDetached env executable args cwd s =
     ((case spawn env (length (trace s)) of None \<Rightarrow> Inr () | Some e \<Rightarrow> Inl e),
      issue env (SpawnDetached executable args (nonempty cwd)) s)"

text \<open>The launch step of \<^verbatim>\<open>startServer\<close>: the service, else the command, else a throw.\<close>

definition launch :: "env \<Rightarrow> unit act" where
  "launch env =
     (case nonempty (serviceName env) of
        Some name \<Rightarrow>
          await (\<lambda>t. (validateServiceName name, t)) (\<lambda>valid.
          await (runSecurePowerShell env ''Start-Service'' [''-Name'', name]) (\<lambda>out.
          ret ()))
      | None \<Rightarrow>
          (case nonempty (startCommand env) of
             Some startCmd \<Rightarrow>
               await (\<lambda>t. (validateStartCommand env startCmd, t)) (\<lambda>(executable, args).
               runSecureDetached env executable args (startWorkingDirectory env))
           | None \<Rightarrow> throw (JsError ''Error'' ''No SERVICE_NAME or START_CMD configured'')))"

text \<open>\<^verbatim>\<open>waitFor(isUp, timeoutMs, intervalMs)\<close>, the only use of \<^verbatim>\<open>waitFor\<close>.\<close>

function waitFor_loop :: "env \<Rightarrow> nat \<Rightarrow> nat \<Rightarrow> world \<Rightarrow> bool \<times> world" where
  "waitFor_loop env until intervalMs s =
     (if now s < until then
        (let (r, s1) = isUp_io env s in
         if r = Inr True then (True, s1)
         else waitFor_loop env until intervalMs (snd (sleep intervalMs s1)))
      else (False, s))"
  by pat_completeness auto
termination
  by (relation "measure (\<lambda>(env, until, intervalMs, s). until - now s)")
     (auto simp: isUp_io_def issue_def sleep_def)

declare waitFor_loop.simps [simp del]

definition waitFor :: "env \<Rightarrow> nat \<Rightarrow> nat \<Rightarrow> bool act" where
  "waitFor env timeoutMs intervalMs s =
     (case waitFor_loop env (now s + timeoutMs) intervalMs s of (b, s1) \<Rightarrow> (Inr b, s1))"

record start_result =
  started :: bool
  reason :: "string option"

definition startServer :: "env \<Rightarrow> start_result act" where
  "startServer env =
     try_catch
       (await (isUp_io env) (\<lambda>already.
        if already then ret \<lparr>started = False, reason = Some ''already_running''\<rparr>
        else
        await (launch env) (\<lambda>launched.
        await (waitFor env (startTimeoutMs env) (pollIntervalMs env)) (\<lambda>ok.
        if \<not> ok then throw (JsError ''Error'' ''Server did not come up in time'')
        else ret \<lparr>started = True, reason = None\<rparr>))))
       (\<lambda>error. throw (JsError (err_name error) (sanitizeErrorMessage error)))"

section \<open>The monitor tick (monitor module)\<close>

text \<open>
  The auto-stop attempt of a tick that reached the threshold: the shutdown protocol
  under the lock; the counter is reset on a successful outcome, and a throw (the lock
  is busy) is logged.
\<close>

definition autoStop :: "env \<Rightarrow> unit act" where
  "autoStop env =
     try_catch
       (await (withLock (gracefulShutdown env)) (\<lambda>result.
        if success result then (\<lambda>t. (Inr (), t\<lparr>consecutiveEmptyChecks := 0\<rparr>))
        else ret ()))
       (\<lambda>lockError. ret ())"

definition performMonitorCheck :: "env \<Rightarrow> unit act" where
  "performMonitorCheck env s =
     (if serverState s = KNOWN_DOWN then (Inr (), s)
      else
        try_catch
          (await (isUp_io env) (\<lambda>serverUp.
           if \<not> serverUp
           then (\<lambda>t. if serverState t \<noteq> KNOWN_DOWN then handleServerDown env t else (Inr (), t))
           else
           await (\<lambda>t. if serverState t \<noteq> KNOWN_UP then handleServerUp env t else (Inr (), t))
             (\<lambda>known.
           await (getPlayers_io env) (\<lambda>players.
           if length players = 0 then
             await (\<lambda>t. (Inr (), t\<lparr>consecutiveEmptyChecks := Suc (consecutiveEmptyChecks t)\<rparr>))
               (\<lambda>counted t.
                  if consecutiveEmptyChecks t \<ge> emptyCheckThreshold env then autoStop env t
                  else (Inr (), t))
           else
             (\<lambda>t. if consecutiveEmptyChecks t > 0
                  then (Inr (), t\<lparr>consecutiveEmptyChecks := 0\<rparr>)
                  else (Inr (), t))))))
          (\<lambda>error. ret ())
          s)"

section \<open>Vocabulary of the properties\<close>

text \<open>A call that publishes the display status.\<close>

fun isSetActivity :: "call \<Rightarrow> bool" where
  "isSetActivity (SetActivity serverName st) = True"
| "isSetActivity _ = False"

text \<open>
  What a real transition from world \<open>s\<close> into \<open>target\<close> leaves: the new state, the idle
  counter at zero, one more execution of the status update, and with it one more
  \<^verbatim>\<open>setActivity\<close> call when a Discord client is attached (none otherwise: the update
  returns early).
\<close>

definition transitioned :: "world \<Rightarrow> server_state \<Rightarrow> (js_error + unit) \<times> world \<Rightarrow> bool" where
  "transitioned s target res =
     (fst res = Inr ()
      \<and> serverState (snd res) = target
      \<and> consecutiveEmptyChecks (snd res) = 0
      \<and> statusUpdates (snd res) = Suc (statusUpdates s)
      \<and> length (filter isSetActivity (trace (snd res)))
          = length (filter isSetActivity (trace s)) + (if clientReady s then 1 else 0))"

text \<open>
  The module variables as the modules initialise them, with a Discord client attached,
  and a configuration with the defaults of the configuration module, except for the
  start timeout, which is the least the module accepts. The remote server answers
  every request with status 200 and reports no players.
\<close>

definition initial_world :: world where
  "initial_world =
     \<lparr>busy = False, serverState = UNKNOWN, consecutiveEmptyChecks = 0,
      lastKnownServerName = JStr ''Palworld Server'', clientReady = True,
      now = 0, trace = [], statusUpdates = 0\<rparr>"

definition server_up_env :: env where
  "server_up_env =
     \<lparr>startTimeoutMs = 5000, pollIntervalMs = 3000, saveWorldDelayMs = 1500,
      shutdownDelaySeconds = 2, emptyCheckThreshold = 2,
      serviceName = Some ''PalServer'', startCommand = None, startWorkingDirectory = None,
      http = (\<lambda>k. Response 200 ''OK'' (Inr (JObj [(''servername'', JStr ''Pal'')]))),
      playerPoll = (\<lambda>k. Inr []),
      latency = (\<lambda>k. 20),
      powershell = (\<lambda>k. Inr []),
      spawn = (\<lambda>k. None),
      setActivity = (\<lambda>k. None),
      validateStartCommand = (\<lambda>c. Inr (c, []))\<rparr>"

text \<open>
  A refusal of the shutdown protocol that reports a player count: the protocol returned
  (it did not throw), the outcome is not a success, its message is \<open>pre\<close>, the count
  \<open>n\<close> in decimal and \<open>post\<close>, so it contains the count, and the protocol stopped in
  world \<open>s'\<close>.
\<close>

definition refused :: "string \<Rightarrow> nat \<Rightarrow> string \<Rightarrow> world \<Rightarrow> (js_error + outcome) \<times> world \<Rightarrow> bool" where
  "refused pre n post s' res =
     (case res of
        (Inr out, t) \<Rightarrow>
          success out = False \<and> message out = pre @ show_nat n @ post
          \<and> sublist (show_nat n) (message out) \<and> t = s'
      | (Inl e, t) \<Rightarrow> False)"

text \<open>The server is up with player A connected.\<close>

definition one_player_env :: env where
  "one_player_env = server_up_env\<lparr>playerPoll := (\<lambda>k. Inr [JObj [(''name'', JStr ''A'')]])\<rparr>"

text \<open>Player A connects after the first player poll (call 1) of a shutdown.\<close>

definition late_joiner_env :: env where
  "late_joiner_env =
     server_up_env\<lparr>playerPoll := (\<lambda>k. if k = 1 then Inr [] else Inr [JObj [(''name'', JStr ''A'')]])\<rparr>"

text \<open>The server answers the liveness poll, and every player poll fails with status 500.\<close>

definition players_poll_fails_env :: env where
  "players_poll_fails_env =
     server_up_env\<lparr>playerPoll := (\<lambda>k. Inl (JsError ''Error'' ''HTTP 500: Internal Server Error''))\<rparr>"

text \<open>The world save (call 2 of a shutdown) fails with status 500.\<close>

definition save_fails_env :: env where
  "save_fails_env =
     server_up_env\<lparr>http := (\<lambda>k. if k = 2
        then Response 500 ''Internal Server Error''
               (Inl (JsError ''SyntaxError'' ''Unexpected end of JSON input''))
        else Response 200 ''OK'' (Inr (JObj [(''servername'', JStr ''Pal'')])))\<rparr>"

text \<open>The server is down and stays down: every request fails in \<^verbatim>\<open>fetch\<close>.\<close>

definition server_down_env :: env where
  "server_down_env = server_up_env\<lparr>http := (\<lambda>k. FetchFailed (JsError ''TypeError'' ''fetch failed''))\<rparr>"

text \<open>
  The server is down at the first poll (call 0) and up from then on, but its answer to
  the first poll after the launch (call 2) takes ten seconds, twice the start timeout.
\<close>

definition slow_reply_env :: env where
  "slow_reply_env =
     server_up_env
       \<lparr>http := (\<lambda>k. if k = 0 then FetchFailed (JsError ''TypeError'' ''fetch failed'')
                      else Response 200 ''OK'' (Inr (JObj [(''servername'', JStr ''Pal'')]))),
        latency := (\<lambda>k. if k = 2 then 10000 else 20)\<rparr>"

text \<open>
  The server goes down on the shutdown request of an auto-stop: in a tick that reaches
  the threshold that request is call 6, and every later request fails in \<^verbatim>\<open>fetch\<close>.
\<close>

definition stops_on_request_env :: env where
  "stops_on_request_env =
     server_up_env\<lparr>http := (\<lambda>k. if k < 7 then Response 200 ''OK'' (Inr (JObj [(''servername'', JStr ''Pal'')]))
                                else FetchFailed (JsError ''TypeError'' ''fetch failed''))\<rparr>"

text \<open>
  Player A connects right after the player poll of a tick (call 1), before the
  auto-stop's own polls.
\<close>

definition player_returns_env :: env where
  "player_returns_env =
     server_up_env\<lparr>playerPoll := (\<lambda>k. if k \<le> 1 then Inr [] else Inr [JObj [(''name'', JStr ''A'')]])\<rparr>"

text \<open>The server is known up and one idle tick has been counted.\<close>

definition idle_world :: world where
  "idle_world = initial_world\<lparr>serverState := KNOWN_UP, consecutiveEmptyChecks := 1\<rparr>"

text \<open>
  Two properties of an action, used to carry the idle counter through the steps of the
  shutdown protocol: the action leaves the counter as it is; and the action either
  returns a successful outcome or leaves the counter as it is.
\<close>

definition keeps_counter :: "'a act \<Rightarrow> bool" where
  "keeps_counter m =
     (\<forall>s r s'. m s = (r, s') \<longrightarrow> consecutiveEmptyChecks s' = consecutiveEmptyChecks s)"

definition success_or_keeps :: "outcome act \<Rightarrow> bool" where
  "success_or_keeps m =
     (\<forall>s r s'. m s = (r, s') \<longrightarrow>
        (\<exists>out. r = Inr out \<and> success out)
        \<or> consecutiveEmptyChecks s' = consecutiveEmptyChecks s)"

section \<open>Properties of the REST client\<close>

text \<open>
  C9: the liveness probe never throws, whatever the status query did; it resolves to
  true exactly when the status query succeeded and to false on every failure.
\<close>

theorem isUp_total:
  "(\<exists>b. isUp reply = Inr b)
   \<and> (isUp reply = Inr True) = (\<exists>info. apiGet reply = Inr info)
   \<and> (isUp reply = Inr False) = (\<exists>e. apiGet reply = Inl e)"
  by (cases "apiGet reply") (auto simp: isUp_def)

text \<open>
  C10, as amended: \<^verbatim>\<open>getPlayers()\<close> returns a list on the successful response
  shapes of the API: a body that is an array is returned as it is; for any other
  non-null body, a \<^verbatim>\<open>players\<close> field that is an array is returned as it is, and an
  absent or falsy field gives the empty list.
\<close>

theorem getPlayers_shapes:
  "apiGet reply = Inr data \<Longrightarrow>
     (isArray data \<longrightarrow> getPlayers reply = Inr data)
   \<and> (\<not> isArray data \<and> js_prop ''players'' data = Inr (Some (JArr ps))
        \<longrightarrow> getPlayers reply = Inr (JArr ps))
   \<and> (\<not> isArray data \<and> js_prop ''players'' data = Inr p \<and> \<not> truthy p
        \<longrightarrow> getPlayers reply = Inr (JArr []))"
  by (cases p) (simp_all add: getPlayers_def)

theorem getPlayers_shapes_witness:
  "apiGet (Response 200 ''OK'' (Inr (JArr [JObj [(''name'', JStr ''A'')]])))
     = Inr (JArr [JObj [(''name'', JStr ''A'')]])
   \<and> isArray (JArr [JObj [(''name'', JStr ''A'')]])
   \<and> getPlayers (Response 200 ''OK'' (Inr (JArr [JObj [(''name'', JStr ''A'')]])))
       = Inr (JArr [JObj [(''name'', JStr ''A'')]])
   \<and> apiGet (Response 200 ''OK'' (Inr (JObj [(''players'', JArr [JStr ''A''])])))
     = Inr (JObj [(''players'', JArr [JStr ''A''])])
   \<and> \<not> isArray (JObj [(''players'', JArr [JStr ''A''])])
   \<and> js_prop ''players'' (JObj [(''players'', JArr [JStr ''A''])]) = Inr (Some (JArr [JStr ''A'']))
   \<and> getPlayers (Response 200 ''OK'' (Inr (JObj [(''players'', JArr [JStr ''A''])])))
       = Inr (JArr [JStr ''A''])
   \<and> apiGet (Response 200 ''OK'' (Inr (JObj []))) = Inr (JObj [])
   \<and> \<not> isArray (JObj [])
   \<and> js_prop ''players'' (JObj []) = Inr None
   \<and> \<not> truthy None
   \<and> getPlayers (Response 200 ''OK'' (Inr (JObj []))) = Inr (JArr [])"
proof -
  have a: "apiGet (Response 200 ''OK'' (Inr (JArr [JObj [(''name'', JStr ''A'')]])))
     = Inr (JArr [JObj [(''name'', JStr ''A'')]])"
    by (simp add: response_ok_def)
  have h: "apiGet (Response 200 ''OK'' (Inr (JObj [(''players'', JArr [JStr ''A''])])))
     = Inr (JObj [(''players'', JArr [JStr ''A''])])"
    by (simp add: response_ok_def)
  have e: "apiGet (Response 200 ''OK'' (Inr (JObj []))) = Inr (JObj [])"
    by (simp add: response_ok_def)
  show ?thesis
    using a h e getPlayers_shapes [OF a, of "[]" None] getPlayers_shapes [OF h, of "[JStr ''A'']" None]
      getPlayers_shapes [OF e, of "[]" None]
    by simp
qed

text \<open>
  C10 as stated fails: on the successful response \<^verbatim>\<open>{"players": 5}\<close> the result is
  the number 5, which is not a list.
\<close>

theorem getPlayers_not_list_counterexample:
  "getPlayers (Response 200 ''OK'' (Inr (JObj [(''players'', JNum 5)]))) = Inr (JNum 5)
   \<and> \<not> isArray (JNum 5)"
  by (simp add: getPlayers_def response_ok_def)

text \<open>A body that is \<^verbatim>\<open>null\<close> makes \<^verbatim>\<open>getPlayers\<close> throw.\<close>

lemma getPlayers_null_body:
  "getPlayers (Response 200 ''OK'' (Inr JNull))
     = Inl (JsError ''TypeError'' ''Cannot read properties of null (reading 'players')'')"
  by (simp add: getPlayers_def response_ok_def)

section \<open>Properties of the state tracker\<close>

lemmas act_defs = ret_def throw_def await_def try_catch_def try_finally_def

lemmas scenario_defs = initial_world_def server_up_env_def

lemma currentServerName_frame:
  assumes "currentServerName env s = (r, s')"
  shows "(\<exists>n. r = Inr n) \<and> serverState s' = serverState s
         \<and> consecutiveEmptyChecks s' = consecutiveEmptyChecks s
         \<and> busy s' = busy s \<and> statusUpdates s' = statusUpdates s
         \<and> clientReady s' = clientReady s
         \<and> filter isSetActivity (trace s') = filter isSetActivity (trace s)"
  using assms
  by (auto simp: currentServerName_def act_defs getInfo_io_def issue_def
           split: if_splits sum.splits option.splits prod.splits)

lemma updateDiscordStatus_frame:
  assumes "updateDiscordStatus env s = (r, s')"
  shows "r = Inr () \<and> serverState s' = serverState s
         \<and> consecutiveEmptyChecks s' = consecutiveEmptyChecks s
         \<and> busy s' = busy s \<and> statusUpdates s' = Suc (statusUpdates s)
         \<and> length (filter isSetActivity (trace s'))
             = length (filter isSetActivity (trace s)) + (if clientReady s then 1 else 0)"
proof (cases "clientReady s")
  case False
  with assms show ?thesis by (auto simp: updateDiscordStatus_def Let_def)
next
  case True
  obtain n t where c: "currentServerName env (s\<lparr>statusUpdates := Suc (statusUpdates s)\<rparr>) = (n, t)"
    by (cases "currentServerName env (s\<lparr>statusUpdates := Suc (statusUpdates s)\<rparr>)")
  from currentServerName_frame [OF c] True assms c show ?thesis
    by (auto simp: updateDiscordStatus_def Let_def act_defs setActivity_io_def issue_def
             split: option.splits)
qed

lemma handleServerUp_transitioned:
  assumes "serverState s \<noteq> KNOWN_UP"
  shows "transitioned s KNOWN_UP (handleServerUp env s)"
proof -
  let ?t = "s\<lparr>serverState := KNOWN_UP, consecutiveEmptyChecks := 0\<rparr>"
  obtain r s' where u: "updateDiscordStatus env ?t = (r, s')"
    by (cases "updateDiscordStatus env ?t")
  from updateDiscordStatus_frame [OF u] u assms show ?thesis
    by (simp add: transitioned_def handleServerUp_def)
qed

lemma handleServerDown_transitioned:
  assumes "serverState s \<noteq> KNOWN_DOWN"
  shows "transitioned s KNOWN_DOWN (handleServerDown env s)"
proof -
  let ?t = "s\<lparr>serverState := KNOWN_DOWN, consecutiveEmptyChecks := 0\<rparr>"
  obtain r s' where u: "updateDiscordStatus env ?t = (r, s')"
    by (cases "updateDiscordStatus env ?t")
  from updateDiscordStatus_frame [OF u] u assms show ?thesis
    by (simp add: transitioned_def handleServerDown_def)
qed

text \<open>
  C7: a notification that matches the tracked state changes nothing (no status
  publication, no counter reset: the world is the same); a real transition into up or
  down sets the state, resets the idle counter to zero and runs the status update
  exactly once. The same holds of the internal transition functions the monitor calls.
\<close>

theorem notify_idempotent_transition_once:
  "(serverState s = KNOWN_UP \<longrightarrow>
      setServerUp env s = (Inr (), s) \<and> handleServerUp env s = (Inr (), s))
   \<and> (serverState s = KNOWN_DOWN \<longrightarrow>
      setServerDown env s = (Inr (), s) \<and> handleServerDown env s = (Inr (), s))
   \<and> (serverState s \<noteq> KNOWN_UP \<longrightarrow>
      transitioned s KNOWN_UP (setServerUp env s)
      \<and> transitioned s KNOWN_UP (handleServerUp env s))
   \<and> (serverState s \<noteq> KNOWN_DOWN \<longrightarrow>
      transitioned s KNOWN_DOWN (setServerDown env s)
      \<and> transitioned s KNOWN_DOWN (handleServerDown env s))"
  using handleServerUp_transitioned [of s env] handleServerDown_transitioned [of s env]
  by (simp add: setServerUp_def setServerDown_def handleServerUp_def handleServerDown_def)

theorem notify_idempotent_transition_once_witness:
  "serverState initial_world \<noteq> KNOWN_UP \<and> serverState initial_world \<noteq> KNOWN_DOWN
   \<and> transitioned initial_world KNOWN_UP (setServerUp server_up_env initial_world)
   \<and> transitioned initial_world KNOWN_DOWN (setServerDown server_up_env initial_world)
   \<and> serverState (initial_world\<lparr>serverState := KNOWN_UP\<rparr>) = KNOWN_UP
   \<and> setServerUp server_up_env (initial_world\<lparr>serverState := KNOWN_UP\<rparr>)
       = (Inr (), initial_world\<lparr>serverState := KNOWN_UP\<rparr>)
   \<and> serverState (initial_world\<lparr>serverState := KNOWN_DOWN\<rparr>) = KNOWN_DOWN
   \<and> setServerDown server_up_env (initial_world\<lparr>serverState := KNOWN_DOWN\<rparr>)
       = (Inr (), initial_world\<lparr>serverState := KNOWN_DOWN\<rparr>)"
  using notify_idempotent_transition_once [of initial_world server_up_env]
        notify_idempotent_transition_once [of "initial_world\<lparr>serverState := KNOWN_UP\<rparr>" server_up_env]
        notify_idempotent_transition_once [of "initial_world\<lparr>serverState := KNOWN_DOWN\<rparr>" server_up_env]
  by (simp add: initial_world_def)

section \<open>Properties of the monitor tick\<close>

text \<open>
  C8: a tick that begins while the tracked state is down is skipped: the world is the
  same afterwards, so no call was made and the idle counter was not touched.
\<close>

theorem monitor_skips_when_down:
  "serverState s = KNOWN_DOWN \<Longrightarrow>
     performMonitorCheck env s = (Inr (), s)
     \<and> trace (snd (performMonitorCheck env s)) = trace s
     \<and> consecutiveEmptyChecks (snd (performMonitorCheck env s)) = consecutiveEmptyChecks s"
  by (simp add: performMonitorCheck_def)

theorem monitor_skips_when_down_witness:
  "serverState (initial_world\<lparr>serverState := KNOWN_DOWN, consecutiveEmptyChecks := 1\<rparr>) = KNOWN_DOWN
   \<and> performMonitorCheck server_up_env
        (initial_world\<lparr>serverState := KNOWN_DOWN, consecutiveEmptyChecks := 1\<rparr>)
      = (Inr (), initial_world\<lparr>serverState := KNOWN_DOWN, consecutiveEmptyChecks := 1\<rparr>)"
proof -
  have h: "serverState (initial_world\<lparr>serverState := KNOWN_DOWN, consecutiveEmptyChecks := 1\<rparr>)
            = KNOWN_DOWN"
    by simp
  show ?thesis
    using h monitor_skips_when_down [OF h, of server_up_env] by simp
qed

section \<open>Properties of startup\<close>

text \<open>
  C5: when the initial liveness poll finds the server up, \<^verbatim>\<open>startServer\<close> returns
  \<^verbatim>\<open>{started: false, reason: 'already_running'}\<close>; the poll is the only call it made, so
  the launcher was not invoked, and no module variable changed.
\<close>

theorem start_already_running:
  "fst (isUp_io env s) = Inr True \<Longrightarrow>
     startServer env s
       = (Inr \<lparr>started = False, reason = Some ''already_running''\<rparr>, issue env (Get ''/info'') s)
     \<and> trace (snd (startServer env s)) = trace s @ [Get ''/info'']"
  by (simp add: startServer_def act_defs isUp_io_def issue_def)

theorem start_already_running_witness:
  "fst (isUp_io server_up_env initial_world) = Inr True
   \<and> fst (startServer server_up_env initial_world)
       = Inr \<lparr>started = False, reason = Some ''already_running''\<rparr>
   \<and> trace (snd (startServer server_up_env initial_world)) = [Get ''/info'']"
proof -
  have h: "fst (isUp_io server_up_env initial_world) = Inr True"
    by (simp add: isUp_io_def isUp_def server_up_env_def response_ok_def)
  show ?thesis
    using h start_already_running [OF h] by (simp add: initial_world_def issue_def)
qed

section \<open>Properties of graceful shutdown\<close>

lemma refusedI:
  "res = (Inr \<lparr>success = False, message = pre @ show_nat n @ post\<rparr>, s')
   \<Longrightarrow> refused pre n post s' res"
  unfolding refused_def by (simp del: append_assoc append.simps add: sublist_appendI)

text \<open>
  C3: when the player poll before the save finds N > 0 players, the protocol returns a
  non-success outcome whose message contains N and stops right after that poll: the
  liveness poll and the player poll are the only calls, so no save and no shutdown
  request was made. When the poll after the settle delay finds N > 0 players, the
  protocol returns a non-success outcome whose message contains N and stops right after
  that poll: no shutdown request was made.
\<close>

theorem shutdown_refused_while_players_online:
  "(isUp_io env s = (Inr True, s1) \<and> getPlayers_io env s1 = (Inr ps, s2) \<and> length ps > 0
      \<longrightarrow> refused ''Cannot stop: **'' (length ps) ''** player(s) online.'' s2
            (gracefulShutdown env s)
          \<and> trace s2 = trace s @ [Get ''/info'', Get ''/players''])
   \<and> (isUp_io env s = (Inr True, s1) \<and> getPlayers_io env s1 = (Inr [], s2)
       \<and> saveWorld_io env s2 = (Inr saved, s3)
       \<and> getPlayers_io env (snd (sleep (saveWorldDelayMs env) s3)) = (Inr ps, s4) \<and> length ps > 0
      \<longrightarrow> refused ''Abort: **'' (length ps) ''** player(s) just connected.'' s4
            (gracefulShutdown env s)
          \<and> trace s4
              = trace s @ [Get ''/info'', Get ''/players'', Post ''/save'' (JObj []), Get ''/players''])"
  apply (intro conjI impI)
  subgoal by (rule refusedI) (simp add: gracefulShutdown_def act_defs)
  subgoal by (auto simp: isUp_io_def getPlayers_io_def issue_def)
  subgoal by (rule refusedI) (simp add: gracefulShutdown_def act_defs sleep_def)
  subgoal by (auto simp: isUp_io_def getPlayers_io_def saveWorld_io_def sleep_def issue_def)
  done

lemmas refusal_scenarios = initial_world_def server_up_env_def one_player_env_def
  late_joiner_env_def

theorem shutdown_refused_while_players_online_witness:
  "isUp_io one_player_env initial_world
     = (Inr True, issue one_player_env (Get ''/info'') initial_world)
   \<and> getPlayers_io one_player_env (issue one_player_env (Get ''/info'') initial_world)
     = (Inr [JObj [(''name'', JStr ''A'')]],
        issue one_player_env (Get ''/players'') (issue one_player_env (Get ''/info'') initial_world))
   \<and> length [JObj [(''name'', JStr ''A'')]] > 0
   \<and> refused ''Cannot stop: **'' 1 ''** player(s) online.''
        (issue one_player_env (Get ''/players'') (issue one_player_env (Get ''/info'') initial_world))
        (gracefulShutdown one_player_env initial_world)
   \<and> isUp_io late_joiner_env initial_world
     = (Inr True, issue late_joiner_env (Get ''/info'') initial_world)
   \<and> getPlayers_io late_joiner_env (issue late_joiner_env (Get ''/info'') initial_world)
     = (Inr [],
        issue late_joiner_env (Get ''/players'') (issue late_joiner_env (Get ''/info'') initial_world))
   \<and> fst (saveWorld_io late_joiner_env
        (issue late_joiner_env (Get ''/players'') (issue late_joiner_env (Get ''/info'') initial_world)))
     = Inr (JObj [(''servername'', JStr ''Pal'')])
   \<and> fst (getPlayers_io late_joiner_env
        (snd (sleep (saveWorldDelayMs late_joiner_env)
          (snd (saveWorld_io late_joiner_env
            (issue late_joiner_env (Get ''/players'')
              (issue late_joiner_env (Get ''/info'') initial_world)))))))
     = Inr [JObj [(''name'', JStr ''A'')]]
   \<and> refused ''Abort: **'' 1 ''** player(s) just connected.''
        (snd (getPlayers_io late_joiner_env
          (snd (sleep (saveWorldDelayMs late_joiner_env)
            (snd (saveWorld_io late_joiner_env
              (issue late_joiner_env (Get ''/players'')
                (issue late_joiner_env (Get ''/info'') initial_world))))))))
        (gracefulShutdown late_joiner_env initial_world)"
proof -
  let ?A = "JObj [(''name'', JStr ''A'')]"
  let ?s1 = "issue one_player_env (Get ''/info'') initial_world"
  let ?s2 = "issue one_player_env (Get ''/players'') ?s1"
  have h1: "isUp_io one_player_env initial_world = (Inr True, ?s1)"
    by (simp add: isUp_io_def isUp_def refusal_scenarios response_ok_def)
  have h2: "getPlayers_io one_player_env ?s1 = (Inr [?A], ?s2)"
    by (simp add: getPlayers_io_def refusal_scenarios issue_def)
  have h3: "length [?A] > 0" by simp
  let ?t1 = "issue late_joiner_env (Get ''/info'') initial_world"
  let ?t2 = "issue late_joiner_env (Get ''/players'') ?t1"
  let ?t3 = "snd (saveWorld_io late_joiner_env ?t2)"
  let ?t4 = "snd (getPlayers_io late_joiner_env (snd (sleep (saveWorldDelayMs late_joiner_env) ?t3)))"
  have k1: "isUp_io late_joiner_env initial_world = (Inr True, ?t1)"
    by (simp add: isUp_io_def isUp_def refusal_scenarios response_ok_def)
  have k2: "getPlayers_io late_joiner_env ?t1 = (Inr [], ?t2)"
    by (simp add: getPlayers_io_def refusal_scenarios issue_def)
  have f3: "fst (saveWorld_io late_joiner_env ?t2) = Inr (JObj [(''servername'', JStr ''Pal'')])"
    by (simp add: saveWorld_io_def refusal_scenarios issue_def response_ok_def)
  have f4: "fst (getPlayers_io late_joiner_env (snd (sleep (saveWorldDelayMs late_joiner_env) ?t3)))
              = Inr [?A]"
    by (simp add: getPlayers_io_def saveWorld_io_def sleep_def refusal_scenarios issue_def)
  have k3: "saveWorld_io late_joiner_env ?t2 = (Inr (JObj [(''servername'', JStr ''Pal'')]), ?t3)"
    by (rule prod_eqI) (simp_all only: f3 fst_conv snd_conv)
  have k4: "getPlayers_io late_joiner_env (snd (sleep (saveWorldDelayMs late_joiner_env) ?t3))
              = (Inr [?A], ?t4)"
    by (rule prod_eqI) (simp_all only: f4 fst_conv snd_conv)
  have r1: "refused ''Cannot stop: **'' (length [?A]) ''** player(s) online.'' ?s2
              (gracefulShutdown one_player_env initial_world)"
    using shutdown_refused_while_players_online
            [of one_player_env initial_world ?s1 "[?A]" ?s2] h1 h2 h3
    by blast
  have r2: "refused ''Abort: **'' (length [?A]) ''** player(s) just connected.'' ?t4
              (gracefulShutdown late_joiner_env initial_world)"
    using shutdown_refused_while_players_online
            [of late_joiner_env initial_world ?t1 "[?A]" ?t2
                "JObj [(''servername'', JStr ''Pal'')]" ?t3 ?t4] k1 k2 k3 k4 h3
    by blast
  have len: "length [?A] = 1" by simp
  show ?thesis
    using h1 h2 h3 r1 k1 k2 f3 f4 r2 unfolding len by blast
qed

text \<open>
  Where the shutdown protocol throws: only at the first player poll. When that poll
  rejects, the protocol rejects with its error; in every other run it returns an
  outcome, since every later step stands inside the \<^verbatim>\<open>try\<close> block, whose handler
  returns.
\<close>

lemma gracefulShutdown_first_poll_rejects:
  "isUp_io env s = (Inr True, s1) \<Longrightarrow> getPlayers_io env s1 = (Inl e, s2) \<Longrightarrow>
     gracefulShutdown env s = (Inl e, s2)"
  by (simp add: gracefulShutdown_def act_defs)

lemma try_catch_ret_returns: "\<exists>v. fst (try_catch m (\<lambda>e. ret (h e)) t) = Inr v"
  by (simp add: try_catch_def ret_def split: prod.splits sum.splits)

lemma gracefulShutdown_returns_otherwise:
  assumes "fst (isUp_io env s) = Inr True \<Longrightarrow>
             \<exists>ps. fst (getPlayers_io env (snd (isUp_io env s))) = Inr ps"
  shows "\<exists>out. fst (gracefulShutdown env s) = Inr out"
proof -
  obtain b s1 where up: "isUp_io env s = (Inr b, s1)"
    by (cases "apiGet (http env (length (trace s)))") (auto simp: isUp_io_def isUp_def)
  show ?thesis
  proof (cases b)
    case False
    with up show ?thesis by (simp add: gracefulShutdown_def act_defs)
  next
    case True
    with up assms obtain ps s2 where p: "getPlayers_io env s1 = (Inr ps, s2)"
      by (cases "getPlayers_io env s1") auto
    show ?thesis
    proof (cases "length ps > 0")
      case True
      with up \<open>b\<close> p show ?thesis by (simp add: gracefulShutdown_def act_defs)
    next
      case False
      with up \<open>b\<close> p show ?thesis
        using try_catch_ret_returns
        by (simp add: gracefulShutdown_def await_def)
    qed
  qed
qed

text \<open>A failed world save is reported as an outcome, with the sanitized message.\<close>

lemma sanitize_http_500:
  "sanitizeErrorMessage (JsError ''Error'' ''HTTP 500: Internal Server Error'')
     = ''HTTP 500: Internal Server Error''"
  by code_simp

lemma shutdown_reports_failed_save:
  "fst (gracefulShutdown save_fails_env initial_world)
     = Inr \<lparr>success = False, message = ''Stop failed: `HTTP 500: Internal Server Error`''\<rparr>"
  by (simp add: gracefulShutdown_def act_defs isUp_io_def getPlayers_io_def saveWorld_io_def isUp_def
        scenario_defs save_fails_env_def issue_def response_ok_def show_nat.simps sanitize_http_500)

text \<open>
  C2 fails on the code: the first player poll stands before the \<^verbatim>\<open>try\<close> block, so
  when the liveness poll succeeds and that player poll rejects, \<^verbatim>\<open>gracefulShutdown\<close>
  rejects with the poll's error instead of returning an outcome.
\<close>

theorem shutdown_throws_when_first_player_poll_fails:
  "fst (gracefulShutdown players_poll_fails_env initial_world)
     = Inl (JsError ''Error'' ''HTTP 500: Internal Server Error'')"
  by (simp add: gracefulShutdown_def act_defs isUp_io_def getPlayers_io_def isUp_def
        scenario_defs players_poll_fails_env_def issue_def response_ok_def)

text \<open>While no liveness poll succeeds, the polling loop of \<^verbatim>\<open>waitFor\<close> ends with false.\<close>

lemma waitFor_loop_never_up:
  "\<forall>k. isUp (http env k) \<noteq> Inr True \<Longrightarrow> fst (waitFor_loop env until intervalMs s) = False"
proof (induction env until intervalMs s rule: waitFor_loop.induct)
  case (1 env until intervalMs s)
  show ?case
  proof (cases "now s < until")
    case False
    then show ?thesis by (simp add: waitFor_loop.simps [of env until intervalMs s])
  next
    case True
    obtain r s1 where p: "isUp_io env s = (r, s1)" by (cases "isUp_io env s")
    with "1.prems" have nr: "r \<noteq> Inr True" by (auto simp: isUp_io_def)
    from "1.IH" [OF True refl p [symmetric] nr "1.prems"] True p nr show ?thesis
      by (simp add: waitFor_loop.simps [of env until intervalMs s])
  qed
qed

text \<open>The sanitizer leaves the timeout message of \<^verbatim>\<open>startServer\<close> as it is.\<close>

lemma sanitize_timeout_message:
  "sanitizeErrorMessage (JsError ''Error'' ''Server did not come up in time'')
     = ''Server did not come up in time''"
  by code_simp

text \<open>
  C6, as amended: when the server was down at the initial poll, the launch went through
  and the polling loop of \<^verbatim>\<open>waitFor\<close> ended with false (no poll begun before the
  deadline \<^verbatim>\<open>Date.now() + startTimeoutMs\<close> found the server up), the call fails by
  throwing: \<^verbatim>\<open>startServer\<close> rejects with an Error whose message is
  \<^verbatim>\<open>Server did not come up in time\<close>. It returns no value of the shape
  \<^verbatim>\<open>{started, reason}\<close>, in particular not \<^verbatim>\<open>{started: true}\<close>.
\<close>

theorem start_times_out:
  "isUp_io env s = (Inr False, s1) \<Longrightarrow>
   launch env s1 = (Inr (), s2) \<Longrightarrow>
   waitFor env (startTimeoutMs env) (pollIntervalMs env) s2 = (Inr False, s3) \<Longrightarrow>
     startServer env s = (Inl (JsError ''Error'' ''Server did not come up in time''), s3)
     \<and> isl (fst (startServer env s))
     \<and> fst (startServer env s) \<noteq> Inr \<lparr>started = True, reason = None\<rparr>"
  by (simp add: startServer_def act_defs sanitize_timeout_message)

theorem start_times_out_witness:
  "isUp_io server_down_env initial_world
     = (Inr False, issue server_down_env (Get ''/info'') initial_world)
   \<and> launch server_down_env (issue server_down_env (Get ''/info'') initial_world)
     = (Inr (),
        issue server_down_env (RunPowerShell ''Start-Service'' [''-Name'', ''PalServer''])
          (issue server_down_env (Get ''/info'') initial_world))
   \<and> fst (waitFor server_down_env (startTimeoutMs server_down_env) (pollIntervalMs server_down_env)
        (issue server_down_env (RunPowerShell ''Start-Service'' [''-Name'', ''PalServer''])
          (issue server_down_env (Get ''/info'') initial_world)))
     = Inr False
   \<and> fst (startServer server_down_env initial_world)
     = Inl (JsError ''Error'' ''Server did not come up in time'')"
proof -
  let ?s1 = "issue server_down_env (Get ''/info'') initial_world"
  let ?s2 = "issue server_down_env (RunPowerShell ''Start-Service'' [''-Name'', ''PalServer'']) ?s1"
  let ?w = "waitFor server_down_env (startTimeoutMs server_down_env) (pollIntervalMs server_down_env) ?s2"
  have h1: "isUp_io server_down_env initial_world = (Inr False, ?s1)"
    by (simp add: isUp_io_def isUp_def scenario_defs server_down_env_def)
  have v: "validateServiceName ''PalServer'' = Inr True"
    by code_simp
  have h2: "launch server_down_env ?s1 = (Inr (), ?s2)"
    by (simp add: launch_def scenario_defs server_down_env_def act_defs v runSecurePowerShell_def issue_def)
  have f3: "fst ?w = Inr False"
    by (simp add: waitFor_def waitFor_loop.simps isUp_io_def isUp_def sleep_def issue_def
          scenario_defs server_down_env_def)
  have h3: "?w = (Inr False, snd ?w)"
    by (rule prod_eqI) (simp_all only: f3 fst_conv snd_conv)
  from start_times_out [OF h1 h2 h3]
  have "fst (startServer server_down_env initial_world)
          = Inl (JsError ''Error'' ''Server did not come up in time'')"
    by simp
  with h1 h2 f3 show ?thesis by blast
qed

text \<open>
  C6 as stated fails in two ways. With the server down throughout, the polling loop
  ends with false and the call rejects: it resolves to no \<^verbatim>\<open>{started, reason}\<close>
  value at all. And with a poll that is sent before the deadline (at 40 ms, the
  deadline being 5040 ms) and answered after it (at 10040 ms), the loop has not
  succeeded before the timeout elapsed, yet the call returns \<^verbatim>\<open>{started: true}\<close>.
\<close>

theorem start_timeout_counterexample:
  "fst (waitFor server_down_env (startTimeoutMs server_down_env) (pollIntervalMs server_down_env)
        (issue server_down_env (RunPowerShell ''Start-Service'' [''-Name'', ''PalServer''])
          (issue server_down_env (Get ''/info'') initial_world)))
     = Inr False
   \<and> fst (startServer server_down_env initial_world)
       = Inl (JsError ''Error'' ''Server did not come up in time'')
   \<and> isl (fst (startServer server_down_env initial_world))
   \<and> now (issue slow_reply_env (RunPowerShell ''Start-Service'' [''-Name'', ''PalServer''])
          (issue slow_reply_env (Get ''/info'') initial_world))
       + startTimeoutMs slow_reply_env = 5040
   \<and> startServer slow_reply_env initial_world
       = (Inr \<lparr>started = True, reason = None\<rparr>,
          initial_world\<lparr>now := 10040,
            trace := [Get ''/info'', RunPowerShell ''Start-Service'' [''-Name'', ''PalServer''],
                      Get ''/info'']\<rparr>)"
proof -
  have v: "validateServiceName ''PalServer'' = Inr True"
    by code_simp
  have w: "fst (waitFor server_down_env (startTimeoutMs server_down_env) (pollIntervalMs server_down_env)
        (issue server_down_env (RunPowerShell ''Start-Service'' [''-Name'', ''PalServer''])
          (issue server_down_env (Get ''/info'') initial_world)))
     = Inr False"
    by (simp add: waitFor_def waitFor_loop.simps isUp_io_def isUp_def sleep_def issue_def
          scenario_defs server_down_env_def)
  have d: "fst (startServer server_down_env initial_world)
       = Inl (JsError ''Error'' ''Server did not come up in time'')"
    by (simp add: startServer_def act_defs launch_def v runSecurePowerShell_def
          waitFor_def waitFor_loop.simps isUp_io_def isUp_def sleep_def issue_def
          scenario_defs server_down_env_def sanitize_timeout_message)
  have t: "now (issue slow_reply_env (RunPowerShell ''Start-Service'' [''-Name'', ''PalServer''])
          (issue slow_reply_env (Get ''/info'') initial_world))
       + startTimeoutMs slow_reply_env = 5040"
    by (simp add: issue_def scenario_defs slow_reply_env_def)
  have u: "startServer slow_reply_env initial_world
       = (Inr \<lparr>started = True, reason = None\<rparr>,
          initial_world\<lparr>now := 10040,
            trace := [Get ''/info'', RunPowerShell ''Start-Service'' [''-Name'', ''PalServer''],
                      Get ''/info'']\<rparr>)"
    by (simp add: startServer_def act_defs launch_def v runSecurePowerShell_def
          waitFor_def waitFor_loop.simps isUp_io_def isUp_def sleep_def issue_def
          scenario_defs slow_reply_env_def response_ok_def)
  from w d t u show ?thesis by simp
qed

section \<open>Properties of the operation lock\<close>

lemma lock_step_invariant:
  assumes "flag l = (\<exists>i. phase_of l i = Holding)"
      and "\<forall>i j. phase_of l i = Holding \<and> phase_of l j = Holding \<longrightarrow> i = j"
  shows "flag (lock_step l ev) = (\<exists>i. phase_of (lock_step l ev) i = Holding)
         \<and> (\<forall>i j. phase_of (lock_step l ev) i = Holding \<and> phase_of (lock_step l ev) j = Holding
               \<longrightarrow> i = j)"
proof (cases ev)
  case (Invoke i)
  show ?thesis
  proof (cases "phase_of l i = Pending")
    case False
    with Invoke assms show ?thesis by simp
  next
    case True
    show ?thesis
    proof (cases "flag l")
      case False
      with True Invoke assms show ?thesis by (auto simp: acquire_def)
    next
      case held: True
      with assms obtain h where h: "phase_of l h = Holding" by blast
      with True have "h \<noteq> i" by auto
      with held h True Invoke assms show ?thesis by (auto simp: acquire_def)
    qed
  qed
next
  case (Settle i r)
  with assms show ?thesis
    by (auto simp: acquire_def release_def split: if_splits)
qed

lemma lock_run_invariant:
  "flag (lock_run es) = (\<exists>i. phase_of (lock_run es) i = Holding)
   \<and> (\<forall>i j. phase_of (lock_run es) i = Holding \<and> phase_of (lock_run es) j = Holding \<longrightarrow> i = j)"
proof (induction es rule: rev_induct)
  case Nil
  show ?case by (simp add: lock_run_def lock_init_def)
next
  case (snoc ev es)
  from lock_step_invariant [of "lock_run es" ev] snoc show ?case
    by (simp add: lock_run_def)
qed

lemma rejected_stays:
  "phase_of l j = Rejected e \<Longrightarrow> phase_of (foldl lock_step l es) j = Rejected e"
proof (induction es arbitrary: l)
  case Nil
  then show ?case by simp
next
  case (Cons ev es)
  from Cons.prems have "phase_of (lock_step l ev) j = Rejected e"
    by (cases ev) (auto simp: acquire_def)
  from Cons.IH [OF this] show ?case by simp
qed

text \<open>
  C1: in every run of overlapping invocations at most one holds the lock and executes
  its action; an invocation that enters while another holds the lock fails at once with
  the busy error, the holder is not disturbed, and the failed invocation never runs
  later (no queue, no retry); when the holder's action settles, with a value or with a
  thrown error \<open>r\<close>, the lock is released and the next invocation acquires it. For
  one invocation run to its end: it fails with the busy error and changes nothing when
  the lock is held, and otherwise it runs the action with the lock held and releases
  the lock whatever the action's outcome \<open>res\<close> is.
\<close>

theorem withLock_exclusive_and_released:
  "(phase_of (lock_run es) i = Holding \<and> phase_of (lock_run es) j = Holding \<longrightarrow> i = j)
   \<and> (phase_of (lock_run es) i = Holding \<and> phase_of (lock_run es) j = Pending \<longrightarrow>
        phase_of (lock_step (lock_run es) (Invoke j)) j = Rejected busy_error
        \<and> phase_of (lock_step (lock_run es) (Invoke j)) i = Holding
        \<and> phase_of (foldl lock_step (lock_step (lock_run es) (Invoke j)) later) j
            = Rejected busy_error)
   \<and> (phase_of (lock_run es) i = Holding \<longrightarrow>
        flag (lock_step (lock_run es) (Settle i r)) = False
        \<and> phase_of (lock_step (lock_run es) (Settle i r)) i = Settled r
        \<and> (phase_of (lock_run es) k = Pending \<longrightarrow>
             phase_of (lock_step (lock_step (lock_run es) (Settle i r)) (Invoke k)) k = Holding))
   \<and> (busy s \<longrightarrow> withLock fn s = (Inl busy_error, s))
   \<and> (\<not> busy s \<and> fn (s\<lparr>busy := True\<rparr>) = (res, s') \<longrightarrow>
        withLock fn s = (res, s'\<lparr>busy := False\<rparr>))"
proof (intro conjI impI)
  assume "phase_of (lock_run es) i = Holding \<and> phase_of (lock_run es) j = Holding"
  with lock_run_invariant [of es] show "i = j" by blast
next
  assume a: "phase_of (lock_run es) i = Holding \<and> phase_of (lock_run es) j = Pending"
  with lock_run_invariant [of es] have f: "flag (lock_run es)" by blast
  from a have ne: "i \<noteq> j" by auto
  from a f show rej: "phase_of (lock_step (lock_run es) (Invoke j)) j = Rejected busy_error"
    by (simp add: acquire_def)
  from a f ne show "phase_of (lock_step (lock_run es) (Invoke j)) i = Holding"
    by (simp add: acquire_def)
  from rejected_stays [OF rej]
  show "phase_of (foldl lock_step (lock_step (lock_run es) (Invoke j)) later) j = Rejected busy_error" .
next
  assume a: "phase_of (lock_run es) i = Holding"
  then show "flag (lock_step (lock_run es) (Settle i r)) = False"
    by (simp add: release_def)
  from a show "phase_of (lock_step (lock_run es) (Settle i r)) i = Settled r"
    by simp
  assume p: "phase_of (lock_run es) k = Pending"
  with a have "k \<noteq> i" by auto
  with a p show "phase_of (lock_step (lock_step (lock_run es) (Settle i r)) (Invoke k)) k = Holding"
    by (simp add: release_def acquire_def)
next
  assume "busy s"
  then show "withLock fn s = (Inl busy_error, s)"
    by (simp add: withLock_def acquire_def)
next
  assume "\<not> busy s \<and> fn (s\<lparr>busy := True\<rparr>) = (res, s')"
  then show "withLock fn s = (res, s'\<lparr>busy := False\<rparr>)"
    by (simp add: withLock_def acquire_def release_def try_finally_def)
qed

theorem withLock_exclusive_and_released_witness:
  "phase_of (lock_run [Invoke 0]) 0 = Holding
   \<and> phase_of (lock_run [Invoke 0]) 1 = Pending
   \<and> phase_of (lock_run [Invoke 0]) 2 = Pending
   \<and> phase_of (lock_step (lock_run [Invoke 0]) (Invoke 1)) 1 = Rejected busy_error
   \<and> phase_of (lock_step (lock_run [Invoke 0]) (Invoke 1)) 0 = Holding
   \<and> phase_of (foldl lock_step (lock_step (lock_run [Invoke 0]) (Invoke 1))
        [Settle 0 (Inl (JsError ''Error'' ''boom'')), Invoke 1]) 1 = Rejected busy_error
   \<and> flag (lock_step (lock_run [Invoke 0]) (Settle 0 (Inl (JsError ''Error'' ''boom'')))) = False
   \<and> phase_of (lock_step (lock_step (lock_run [Invoke 0])
        (Settle 0 (Inl (JsError ''Error'' ''boom'')))) (Invoke 2)) 2 = Holding
   \<and> busy (initial_world\<lparr>busy := True\<rparr>)
   \<and> withLock (ret ()) (initial_world\<lparr>busy := True\<rparr>)
       = (Inl busy_error, initial_world\<lparr>busy := True\<rparr>)
   \<and> \<not> busy initial_world
   \<and> throw (JsError ''Error'' ''boom'') (initial_world\<lparr>busy := True\<rparr>)
       = (Inl (JsError ''Error'' ''boom'') :: js_error + unit, initial_world\<lparr>busy := True\<rparr>)
   \<and> withLock (throw (JsError ''Error'' ''boom'')) initial_world
       = (Inl (JsError ''Error'' ''boom'') :: js_error + unit, initial_world)"
proof -
  have h: "phase_of (lock_run [Invoke 0]) 0 = Holding"
          "phase_of (lock_run [Invoke 0]) 1 = Pending"
          "phase_of (lock_run [Invoke 0]) 2 = Pending"
    by (simp_all add: lock_run_def lock_init_def acquire_def)
  have b: "busy (initial_world\<lparr>busy := True\<rparr>)" "\<not> busy initial_world"
    by (simp_all add: initial_world_def)
  have t: "throw (JsError ''Error'' ''boom'') (initial_world\<lparr>busy := True\<rparr>)
       = (Inl (JsError ''Error'' ''boom'') :: js_error + unit, initial_world\<lparr>busy := True\<rparr>)"
    by (simp add: throw_def)
  have r: "initial_world\<lparr>busy := True\<rparr>\<lparr>busy := False\<rparr> = initial_world"
    by (simp add: initial_world_def)
  from withLock_exclusive_and_released
         [of "[Invoke 0]" 0 1 "[Settle 0 (Inl (JsError ''Error'' ''boom'')), Invoke 1]"
             "Inl (JsError ''Error'' ''boom'')" 2 "initial_world\<lparr>busy := True\<rparr>" "ret ()"]
       withLock_exclusive_and_released
         [of "[Invoke 0]" 0 1 "[]" "Inl (JsError ''Error'' ''boom'')" 2 initial_world
             "throw (JsError ''Error'' ''boom'') :: unit act"
             "Inl (JsError ''Error'' ''boom'')" "initial_world\<lparr>busy := True\<rparr>"]
       h b t
  show ?thesis unfolding r by blast
qed

section \<open>Properties of the auto-stop\<close>

lemma keeps_counterD:
  "keeps_counter m \<Longrightarrow> m s = (r, s') \<Longrightarrow> consecutiveEmptyChecks s' = consecutiveEmptyChecks s"
  unfolding keeps_counter_def by blast

lemma success_or_keepsD:
  "success_or_keeps m \<Longrightarrow> m s = (r, s') \<Longrightarrow>
     (\<exists>out. r = Inr out \<and> success out) \<or> consecutiveEmptyChecks s' = consecutiveEmptyChecks s"
  unfolding success_or_keeps_def by blast

lemma keeps_ret: "keeps_counter (ret v)"
  by (simp add: keeps_counter_def ret_def)

lemma keeps_await:
  assumes m: "keeps_counter m" and f: "\<And>v. keeps_counter (f v)"
  shows "keeps_counter (await m f)"
  unfolding keeps_counter_def
proof (intro allI impI)
  fix s r s'
  assume a: "await m f s = (r, s')"
  obtain r1 s1 where m1: "m s = (r1, s1)" by (cases "m s")
  have c1: "consecutiveEmptyChecks s1 = consecutiveEmptyChecks s"
    by (rule keeps_counterD [OF m m1])
  show "consecutiveEmptyChecks s' = consecutiveEmptyChecks s"
  proof (cases r1)
    case (Inl e)
    with a m1 c1 show ?thesis by (simp add: await_def)
  next
    case (Inr v)
    with a m1 have "f v s1 = (r, s')" by (simp add: await_def)
    from keeps_counterD [OF f this] c1 show ?thesis by simp
  qed
qed

lemma keeps_io:
  "keeps_counter (isUp_io env)" "keeps_counter (getPlayers_io env)"
  "keeps_counter (saveWorld_io env)" "keeps_counter (shutdown_io env d msg)"
  "keeps_counter (sleep ms)"
  by (auto simp: keeps_counter_def isUp_io_def getPlayers_io_def saveWorld_io_def shutdown_io_def
        sleep_def issue_def)

lemma waitForShutdown_loop_counter:
  "waitForShutdown_loop env until intervalMs s = (b, s') \<Longrightarrow>
     consecutiveEmptyChecks s' = consecutiveEmptyChecks s"
proof (induction env until intervalMs s rule: waitForShutdown_loop.induct)
  case (1 env until intervalMs s)
  show ?case
  proof (cases "now s < until")
    case False
    with "1.prems" show ?thesis by (simp add: waitForShutdown_loop.simps [of env until intervalMs s])
  next
    case True
    obtain r s1 where p: "isUp_io env s = (r, s1)" by (cases "isUp_io env s")
    then have c1: "consecutiveEmptyChecks s1 = consecutiveEmptyChecks s"
      by (auto simp: isUp_io_def issue_def)
    show ?thesis
    proof (cases "r = Inr False")
      case True
      with \<open>now s < until\<close> p "1.prems" c1 show ?thesis
        by (simp add: waitForShutdown_loop.simps [of env until intervalMs s])
    next
      case False
      from \<open>now s < until\<close> p False "1.prems"
      have "waitForShutdown_loop env until intervalMs (snd (sleep intervalMs s1)) = (b, s')"
        by (simp add: waitForShutdown_loop.simps [of env until intervalMs s])
      from "1.IH" [OF \<open>now s < until\<close> refl p [symmetric] False this] c1 show ?thesis
        by (simp add: sleep_def)
    qed
  qed
qed

lemma keeps_waitForShutdown: "keeps_counter (waitForShutdown env timeoutMs intervalMs)"
  by (auto simp: keeps_counter_def waitForShutdown_def split: prod.splits
           dest: waitForShutdown_loop_counter)

lemma sok_keeps: "keeps_counter m \<Longrightarrow> success_or_keeps m"
  by (simp add: keeps_counter_def success_or_keeps_def)

lemma sok_await:
  assumes m: "keeps_counter m" and f: "\<And>v. success_or_keeps (f v)"
  shows "success_or_keeps (await m f)"
  unfolding success_or_keeps_def
proof (intro allI impI)
  fix s r s'
  assume a: "await m f s = (r, s')"
  obtain r1 s1 where m1: "m s = (r1, s1)" by (cases "m s")
  have c1: "consecutiveEmptyChecks s1 = consecutiveEmptyChecks s"
    by (rule keeps_counterD [OF m m1])
  show "(\<exists>out. r = Inr out \<and> success out)
        \<or> consecutiveEmptyChecks s' = consecutiveEmptyChecks s"
  proof (cases r1)
    case (Inl e)
    with a m1 c1 show ?thesis by (simp add: await_def)
  next
    case (Inr v)
    with a m1 have "f v s1 = (r, s')" by (simp add: await_def)
    from success_or_keepsD [OF f this] c1 show ?thesis by simp
  qed
qed

lemma sok_try_catch:
  assumes m: "success_or_keeps m" and h: "\<And>e. keeps_counter (h e)"
  shows "success_or_keeps (try_catch m h)"
  unfolding success_or_keeps_def
proof (intro allI impI)
  fix s r s'
  assume a: "try_catch m h s = (r, s')"
  obtain r1 s1 where m1: "m s = (r1, s1)" by (cases "m s")
  show "(\<exists>out. r = Inr out \<and> success out)
        \<or> consecutiveEmptyChecks s' = consecutiveEmptyChecks s"
  proof (cases r1)
    case (Inl e)
    with success_or_keepsD [OF m m1]
    have c1: "consecutiveEmptyChecks s1 = consecutiveEmptyChecks s" by simp
    from Inl a m1 have "h e s1 = (r, s')" by (simp add: try_catch_def)
    from keeps_counterD [OF h this] c1 show ?thesis by simp
  next
    case (Inr v)
    with a m1 have "r = r1" "s' = s1" by (simp_all add: try_catch_def)
    with success_or_keepsD [OF m m1] show ?thesis by simp
  qed
qed

lemma sok_if:
  "(c \<Longrightarrow> success_or_keeps m) \<Longrightarrow> (\<not> c \<Longrightarrow> success_or_keeps n)
   \<Longrightarrow> success_or_keeps (if c then m else n)"
  by simp

lemma setServerDown_returns: "fst (setServerDown env s) = Inr ()"
  using handleServerDown_transitioned [of s env]
  by (cases "serverState s = KNOWN_DOWN") (simp_all add: setServerDown_def transitioned_def)

lemma sok_notify:
  "success_or_keeps (await (setServerDown env) (\<lambda>notified. ret \<lparr>success = True, message = m\<rparr>))"
  unfolding success_or_keeps_def
proof (intro allI impI)
  fix s r s'
  assume a: "await (setServerDown env) (\<lambda>notified. ret \<lparr>success = True, message = m\<rparr>) s = (r, s')"
  obtain r1 s1 where m1: "setServerDown env s = (r1, s1)" by (cases "setServerDown env s")
  with setServerDown_returns [of env s] have "r1 = Inr ()" by simp
  with a m1 have "r = Inr \<lparr>success = True, message = m\<rparr>" by (simp add: await_def ret_def)
  then show "(\<exists>out. r = Inr out \<and> success out)
        \<or> consecutiveEmptyChecks s' = consecutiveEmptyChecks s" by simp
qed

lemma gracefulShutdown_counter: "success_or_keeps (gracefulShutdown env)"
  unfolding gracefulShutdown_def
  by (intro sok_await sok_try_catch sok_if sok_notify keeps_io keeps_waitForShutdown
        sok_keeps [OF keeps_ret] keeps_ret)

lemma gracefulShutdown_counter_cases:
  assumes "gracefulShutdown env t = (r, t')"
  shows "(\<exists>out. r = Inr out \<and> success out)
         \<or> consecutiveEmptyChecks t' = consecutiveEmptyChecks t"
  by (rule success_or_keepsD [OF gracefulShutdown_counter assms])

lemma autoStop_returns: "fst (autoStop env t) = Inr ()"
  by (simp add: autoStop_def act_defs split: prod.splits sum.splits)

text \<open>
  C4: take a tick that found the server up (state \<open>s0\<close>, then \<open>s1\<close> once the tracker
  knows it), polled zero players (state \<open>s2\<close>) and whose incremented idle counter
  reaches the threshold. If the lock is held, the tick ends right there: the counter
  keeps the incremented value and nothing else happened. If the lock is free, the
  shutdown protocol runs under it: on a successful outcome the counter is 0 after the
  tick, on a non-success outcome (and on a throw) it keeps the incremented value.
\<close>

theorem auto_stop_counter:
  assumes down: "serverState s \<noteq> KNOWN_DOWN"
    and up: "isUp_io env s = (Inr True, s0)"
    and known: "(if serverState s0 \<noteq> KNOWN_UP then handleServerUp env s0 else (Inr (), s0))
                  = (Inr (), s1)"
    and empty: "getPlayers_io env s1 = (Inr [], s2)"
    and reached: "emptyCheckThreshold env \<le> Suc (consecutiveEmptyChecks s2)"
  shows "(busy s2 \<longrightarrow>
            performMonitorCheck env s
              = (Inr (), s2\<lparr>consecutiveEmptyChecks := Suc (consecutiveEmptyChecks s2)\<rparr>))
       \<and> (\<not> busy s2 \<longrightarrow>
            (case gracefulShutdown env
                    (s2\<lparr>consecutiveEmptyChecks := Suc (consecutiveEmptyChecks s2), busy := True\<rparr>) of
               (Inr out, s3) \<Rightarrow>
                 consecutiveEmptyChecks (snd (performMonitorCheck env s))
                   = (if success out then 0 else Suc (consecutiveEmptyChecks s2))
             | (Inl e, s3) \<Rightarrow>
                 consecutiveEmptyChecks (snd (performMonitorCheck env s))
                   = Suc (consecutiveEmptyChecks s2)))"
proof -
  let ?t = "s2\<lparr>consecutiveEmptyChecks := Suc (consecutiveEmptyChecks s2)\<rparr>"
  obtain r t' where a: "autoStop env ?t = (r, t')" by (cases "autoStop env ?t")
  with autoStop_returns [of env ?t] have r: "r = Inr ()" by simp
  have tick: "performMonitorCheck env s = autoStop env ?t"
    using down up known empty reached a r
    by (simp add: performMonitorCheck_def act_defs)
  have held: "busy s2 \<Longrightarrow> autoStop env ?t = (Inr (), ?t)"
    by (simp add: autoStop_def act_defs withLock_def acquire_def)
  have free: "\<not> busy s2 \<Longrightarrow>
      (case gracefulShutdown env (?t\<lparr>busy := True\<rparr>) of
         (Inr out, s3) \<Rightarrow>
           consecutiveEmptyChecks (snd (autoStop env ?t))
             = (if success out then 0 else Suc (consecutiveEmptyChecks s2))
       | (Inl e, s3) \<Rightarrow>
           consecutiveEmptyChecks (snd (autoStop env ?t)) = Suc (consecutiveEmptyChecks s2))"
  proof -
    assume nb: "\<not> busy s2"
    obtain r s3 where g: "gracefulShutdown env (?t\<lparr>busy := True\<rparr>) = (r, s3)"
      by (cases "gracefulShutdown env (?t\<lparr>busy := True\<rparr>)")
    from gracefulShutdown_counter_cases [OF g]
    have c: "(\<exists>out. r = Inr out \<and> success out)
             \<or> consecutiveEmptyChecks s3 = Suc (consecutiveEmptyChecks s2)"
      by simp
    show ?thesis
    proof (cases r)
      case (Inl e)
      with c g nb show ?thesis
        by (simp add: autoStop_def act_defs withLock_def acquire_def release_def)
    next
      case (Inr out)
      with c g nb show ?thesis
        by (auto simp: autoStop_def act_defs withLock_def acquire_def release_def)
    qed
  qed
  show ?thesis unfolding tick using held free by blast
qed

lemma tick_hyps:
  assumes "fst (isUp_io env s) = Inr True" "serverState s = KNOWN_UP"
          "fst (getPlayers_io env (snd (isUp_io env s))) = Inr []"
  shows "isUp_io env s = (Inr True, snd (isUp_io env s))"
    and "(if serverState (snd (isUp_io env s)) \<noteq> KNOWN_UP
          then handleServerUp env (snd (isUp_io env s)) else (Inr (), snd (isUp_io env s)))
         = (Inr (), snd (isUp_io env s))"
    and "getPlayers_io env (snd (isUp_io env s))
         = (Inr [], snd (getPlayers_io env (snd (isUp_io env s))))"
  using assms by (simp_all add: prod_eq_iff) (simp add: isUp_io_def issue_def)

lemmas eval_defs = gracefulShutdown_def act_defs isUp_io_def isUp_def getPlayers_io_def
  saveWorld_io_def shutdown_io_def sleep_def issue_def response_ok_def show_nat.simps
  waitForShutdown_def waitForShutdown_loop.simps setServerDown_def handleServerDown_def
  updateDiscordStatus_def currentServerName_def setActivity_io_def

lemmas auto_stop_scenarios = initial_world_def server_up_env_def idle_world_def
  player_returns_env_def stops_on_request_env_def

theorem auto_stop_counter_witness:
  "serverState idle_world \<noteq> KNOWN_DOWN
   \<and> serverState (idle_world\<lparr>busy := True\<rparr>) \<noteq> KNOWN_DOWN
   \<and> fst (isUp_io server_up_env (idle_world\<lparr>busy := True\<rparr>)) = Inr True
   \<and> fst (getPlayers_io server_up_env (snd (isUp_io server_up_env (idle_world\<lparr>busy := True\<rparr>))))
       = Inr []
   \<and> emptyCheckThreshold server_up_env \<le> Suc (consecutiveEmptyChecks idle_world)
   \<and> busy (snd (getPlayers_io server_up_env (snd (isUp_io server_up_env (idle_world\<lparr>busy := True\<rparr>)))))
   \<and> consecutiveEmptyChecks (snd (performMonitorCheck server_up_env (idle_world\<lparr>busy := True\<rparr>))) = 2
   \<and> trace (snd (performMonitorCheck server_up_env (idle_world\<lparr>busy := True\<rparr>)))
       = [Get ''/info'', Get ''/players'']
   \<and> fst (isUp_io player_returns_env idle_world) = Inr True
   \<and> fst (getPlayers_io player_returns_env (snd (isUp_io player_returns_env idle_world))) = Inr []
   \<and> emptyCheckThreshold player_returns_env \<le> Suc (consecutiveEmptyChecks idle_world)
   \<and> \<not> busy (snd (getPlayers_io player_returns_env (snd (isUp_io player_returns_env idle_world))))
   \<and> fst (gracefulShutdown player_returns_env
        ((snd (getPlayers_io player_returns_env (snd (isUp_io player_returns_env idle_world))))
           \<lparr>consecutiveEmptyChecks :=
              Suc (consecutiveEmptyChecks
                (snd (getPlayers_io player_returns_env (snd (isUp_io player_returns_env idle_world))))),
            busy := True\<rparr>))
       = Inr \<lparr>success = False, message = ''Cannot stop: **1** player(s) online.''\<rparr>
   \<and> consecutiveEmptyChecks (snd (performMonitorCheck player_returns_env idle_world)) = 2
   \<and> fst (isUp_io stops_on_request_env idle_world) = Inr True
   \<and> fst (getPlayers_io stops_on_request_env (snd (isUp_io stops_on_request_env idle_world))) = Inr []
   \<and> emptyCheckThreshold stops_on_request_env \<le> Suc (consecutiveEmptyChecks idle_world)
   \<and> \<not> busy (snd (getPlayers_io stops_on_request_env (snd (isUp_io stops_on_request_env idle_world))))
   \<and> fst (gracefulShutdown stops_on_request_env
        ((snd (getPlayers_io stops_on_request_env (snd (isUp_io stops_on_request_env idle_world))))
           \<lparr>consecutiveEmptyChecks :=
              Suc (consecutiveEmptyChecks
                (snd (getPlayers_io stops_on_request_env (snd (isUp_io stops_on_request_env idle_world))))),
            busy := True\<rparr>))
       = Inr \<lparr>success = True, message = ''Graceful server stop completed.''\<rparr>
   \<and> consecutiveEmptyChecks (snd (performMonitorCheck stops_on_request_env idle_world)) = 0"
proof -
  have idle: "serverState idle_world \<noteq> KNOWN_DOWN" "\<not> busy idle_world"
    "consecutiveEmptyChecks idle_world = 1"
    by (simp_all add: auto_stop_scenarios)
  \<comment> \<open>The lock is held by a manual operation.\<close>
  let ?e = server_up_env
  let ?s = "idle_world\<lparr>busy := True\<rparr>"
  let ?a = "snd (isUp_io ?e ?s)"
  let ?b = "snd (getPlayers_io ?e ?a)"
  have down: "serverState ?s \<noteq> KNOWN_DOWN" by (simp add: auto_stop_scenarios)
  have st: "serverState ?s = KNOWN_UP" by (simp add: auto_stop_scenarios)
  have f1: "fst (isUp_io ?e ?s) = Inr True"
    by (simp add: isUp_io_def isUp_def auto_stop_scenarios response_ok_def)
  have f2: "fst (getPlayers_io ?e ?a) = Inr []"
    by (simp add: getPlayers_io_def auto_stop_scenarios)
  have cb0: "consecutiveEmptyChecks ?b = 1" "busy ?b"
    by (simp_all add: getPlayers_io_def isUp_io_def issue_def auto_stop_scenarios)
  have reached: "emptyCheckThreshold ?e \<le> Suc (consecutiveEmptyChecks ?b)"
    by (simp add: cb0) (simp add: auto_stop_scenarios)
  from auto_stop_counter [OF down tick_hyps [OF f1 st f2] reached] cb0
  have "performMonitorCheck ?e ?s
          = (Inr (), ?b\<lparr>consecutiveEmptyChecks := Suc (consecutiveEmptyChecks ?b)\<rparr>)"
    by blast
  then have held: "consecutiveEmptyChecks (snd (performMonitorCheck ?e ?s)) = 2"
    "trace (snd (performMonitorCheck ?e ?s)) = [Get ''/info'', Get ''/players'']"
    by (simp_all add: getPlayers_io_def isUp_io_def issue_def auto_stop_scenarios)
  have thr: "emptyCheckThreshold ?e \<le> Suc (consecutiveEmptyChecks idle_world)"
    by (simp add: auto_stop_scenarios)
  \<comment> \<open>The shutdown is refused: a player connected after the tick's poll.\<close>
  let ?e = player_returns_env
  let ?s = idle_world
  let ?a = "snd (isUp_io ?e ?s)"
  let ?b = "snd (getPlayers_io ?e ?a)"
  let ?t = "?b\<lparr>consecutiveEmptyChecks := Suc (consecutiveEmptyChecks ?b), busy := True\<rparr>"
  have st: "serverState ?s = KNOWN_UP" by (simp add: auto_stop_scenarios)
  have g1: "fst (isUp_io ?e ?s) = Inr True"
    by (simp add: isUp_io_def isUp_def auto_stop_scenarios response_ok_def)
  have g2: "fst (getPlayers_io ?e ?a) = Inr []"
    by (simp add: getPlayers_io_def isUp_io_def issue_def auto_stop_scenarios)
  have cb1: "consecutiveEmptyChecks ?b = 1" "\<not> busy ?b"
    by (simp_all add: getPlayers_io_def isUp_io_def issue_def auto_stop_scenarios)
  have reached: "emptyCheckThreshold ?e \<le> Suc (consecutiveEmptyChecks ?b)"
    by (simp add: cb1) (simp add: auto_stop_scenarios)
  have thr2: "emptyCheckThreshold ?e \<le> Suc (consecutiveEmptyChecks idle_world)"
    by (simp add: auto_stop_scenarios)
  have g3: "fst (gracefulShutdown ?e ?t)
             = Inr \<lparr>success = False, message = ''Cannot stop: **1** player(s) online.''\<rparr>"
    by (simp add: eval_defs auto_stop_scenarios)
  from auto_stop_counter [OF idle(1) tick_hyps [OF g1 st g2] reached] cb1 g3
  have refused: "consecutiveEmptyChecks (snd (performMonitorCheck ?e ?s)) = 2"
    by (cases "gracefulShutdown ?e ?t") auto
  \<comment> \<open>The shutdown succeeds.\<close>
  let ?e = stops_on_request_env
  let ?a = "snd (isUp_io ?e ?s)"
  let ?b = "snd (getPlayers_io ?e ?a)"
  let ?t = "?b\<lparr>consecutiveEmptyChecks := Suc (consecutiveEmptyChecks ?b), busy := True\<rparr>"
  have k1: "fst (isUp_io ?e ?s) = Inr True"
    by (simp add: isUp_io_def isUp_def auto_stop_scenarios response_ok_def)
  have k2: "fst (getPlayers_io ?e ?a) = Inr []"
    by (simp add: getPlayers_io_def isUp_io_def issue_def auto_stop_scenarios)
  have cb2: "consecutiveEmptyChecks ?b = 1" "\<not> busy ?b"
    by (simp_all add: getPlayers_io_def isUp_io_def issue_def auto_stop_scenarios)
  have reached: "emptyCheckThreshold ?e \<le> Suc (consecutiveEmptyChecks ?b)"
    by (simp add: cb2) (simp add: auto_stop_scenarios)
  have thr3: "emptyCheckThreshold ?e \<le> Suc (consecutiveEmptyChecks idle_world)"
    by (simp add: auto_stop_scenarios)
  have k3: "fst (gracefulShutdown ?e ?t)
             = Inr \<lparr>success = True, message = ''Graceful server stop completed.''\<rparr>"
    by (simp add: eval_defs auto_stop_scenarios)
  from auto_stop_counter [OF idle(1) tick_hyps [OF k1 st k2] reached] cb2 k3
  have stopped: "consecutiveEmptyChecks (snd (performMonitorCheck ?e ?s)) = 0"
    by (cases "gracefulShutdown ?e ?t") auto
  show ?thesis
    using idle(1) down f1 f2 thr cb0(2) held g1 g2 thr2 cb1(2) g3 refused k1 k2 thr3 cb2(2) k3 stopped
    by blast
qed

end
